theory Spec2Isabelle
  imports Complex_Main "HOL-Library.Word"
begin

section \<open>Window demo (BasicWindowTutorial.cpp)\<close>

text \<open>
  The program is a straight line of calls into the SDL library. The library is not part
  of the repository, so the outcome of every call the program could look at is an input
  of the model: whether \<open>SDL_Init\<close> succeeded and what \<open>SDL_CreateWindow\<close> returned
  (a window handle, or \<open>None\<close> for the null pointer). What the program does to the
  outside world is the list of library calls it makes, in order.
\<close>

datatype sdl_call =
    Call_Init
  | Call_Log string
  | Call_CreateWindow string int int
  | Call_Delay nat
  | Call_Quit

type_synonym window_handle = nat

text \<open>
  \<open>main\<close> of BasicWindowTutorial.cpp. The variable \<open>window\<close> is assigned and never
  read, so the second argument does not occur on the right-hand side. The result is the
  exit status and the calls made.
\<close>

definition main :: "bool \<Rightarrow> window_handle option \<Rightarrow> int \<times> sdl_call list" where
  "main init_ok window =
     (if \<not> init_ok then (- 1, [Call_Init, Call_Log ''Failed!''])
      else (0, [Call_Init, Call_CreateWindow ''Cavan - SDL3'' 320 240,
                Call_Delay 5000, Call_Quit]))"

fun is_CreateWindow :: "sdl_call \<Rightarrow> bool" where
  "is_CreateWindow (Call_CreateWindow title w h) = True"
| "is_CreateWindow c = False"

fun is_Delay :: "sdl_call \<Rightarrow> bool" where
  "is_Delay (Call_Delay ms) = True"
| "is_Delay c = False"

section \<open>Points and ship demo (SDL_Test_File.cpp)\<close>

subsection \<open>Event callback\<close>

datatype SDL_AppResult = SDL_APP_CONTINUE | SDL_APP_SUCCESS | SDL_APP_FAILURE

text \<open>
  Of an \<open>SDL_Event\<close> the callback reads the \<open>type\<close> field only, a \<open>Uint32\<close>.
  \<open>SDL_EVENT_QUIT\<close> is 0x100 in SDL3's \<open>SDL_events.h\<close>.
\<close>

record SDL_Event =
  event_type :: "32 word"

definition SDL_EVENT_QUIT :: "32 word" where
  "SDL_EVENT_QUIT = 0x100"

definition SDL_AppEvent :: "SDL_Event \<Rightarrow> SDL_AppResult" where
  "SDL_AppEvent event =
     (if event_type event = SDL_EVENT_QUIT then SDL_APP_SUCCESS else SDL_APP_CONTINUE)"

subsection \<open>Numbers\<close>

text \<open>
  The program computes in C \<open>float\<close>, the IEEE binary32 format. A float is a real
  number here, and \<open>to_float\<close> rounds a real to the nearest float, ties to the even
  significand: the unit in the last place of \<open>x\<close> is \<open>2\<close> to the power
  \<open>\<lfloor>log\<^sub>2 \<bar>x\<bar>\<rfloor> - 23\<close>, and \<open>-149\<close> at least (the subnormal numbers). Overflow to
  infinity and NaN are not modelled; the numbers of the program stay far below
  \<open>2\<^sup>1\<^sup>2\<^sup>8\<close>. A float operation is the exact operation followed by the rounding;
  \<open>SDL_sqrtf\<close> is taken to round correctly, as IEEE asks of the square root.

  The rounding is modelled where the program's numbers depend on it: the elapsed time,
  the advance of a point, and the pixels of the glow texture. The seeding and the respawn
  of a point and the geometry of the ship are computed exactly, with the real sine and
  cosine for \<open>SDL_sinf\<close> and \<open>SDL_cosf\<close>. The time stamps are \<open>Uint64\<close> and subtract
  with wrap-around, as in the code.
\<close>

definition round_even :: "real \<Rightarrow> int" where
  "round_even x =
     (let f = \<lfloor>x\<rfloor>
      in if x - of_int f < 1 / 2 then f
         else if 1 / 2 < x - of_int f then f + 1
         else if even f then f else f + 1)"

definition ulp_exponent :: "real \<Rightarrow> int" where
  "ulp_exponent x = max \<lfloor>log 2 \<bar>x\<bar>\<rfloor> (- 126) - 23"

definition ulp :: "real \<Rightarrow> real" where
  "ulp x = 2 powr of_int (ulp_exponent x)"

definition to_float :: "real \<Rightarrow> real" where
  "to_float x = of_int (round_even (x / ulp x)) * ulp x"

definition is_float :: "real \<Rightarrow> bool" where
  "is_float x = (to_float x = x)"

definition f_add :: "real \<Rightarrow> real \<Rightarrow> real" where
  "f_add a b = to_float (a + b)"

definition f_sub :: "real \<Rightarrow> real \<Rightarrow> real" where
  "f_sub a b = to_float (a - b)"

definition f_mul :: "real \<Rightarrow> real \<Rightarrow> real" where
  "f_mul a b = to_float (a * b)"

definition f_div :: "real \<Rightarrow> real \<Rightarrow> real" where
  "f_div a b = to_float (a / b)"

definition f_sqrt :: "real \<Rightarrow> real" where
  "f_sqrt a = to_float (sqrt a)"

definition f_of_int :: "int \<Rightarrow> real" where
  "f_of_int k = to_float (of_int k)"

definition f_of_Uint64 :: "64 word \<Rightarrow> real" where
  "f_of_Uint64 w = to_float (real (unat w))"

text \<open>The conversion of a \<open>float\<close> to \<open>Uint8\<close> truncates towards zero.\<close>

definition Uint8_of_float :: "real \<Rightarrow> 8 word" where
  "Uint8_of_float f = word_of_int (if 0 \<le> f then \<lfloor>f\<rfloor> else \<lceil>f\<rceil>)"

definition WINDOW_WIDTH :: int where
  "WINDOW_WIDTH = 640"

definition WINDOW_HEIGHT :: int where
  "WINDOW_HEIGHT = 480"

definition NUM_POINTS :: nat where
  "NUM_POINTS = 500"

definition MIN_PIXELS_PER_SECOND :: int where
  "MIN_PIXELS_PER_SECOND = 30"

definition MAX_PIXELS_PER_SECOND :: int where
  "MAX_PIXELS_PER_SECOND = 960"

subsection \<open>rotate\_point\<close>

text \<open>
  The C function updates \<open>*x\<close> and \<open>*y\<close> in place; the model takes the two
  coordinates and returns the new ones.
\<close>

definition rotate_point :: "real \<Rightarrow> real \<Rightarrow> real \<times> real \<Rightarrow> real \<Rightarrow> real \<times> real" where
  "rotate_point cx cy p angle =
     (let s = sin angle;
          c = cos angle;
          tx = fst p - cx;
          ty = snd p - cy;
          rx = tx * c - ty * s;
          ry = tx * s + ty * c
      in (rx + cx, ry + cy))"

definition distance_between :: "real \<times> real \<Rightarrow> real \<times> real \<Rightarrow> real" where
  "distance_between p q = sqrt ((fst p - fst q)\<^sup>2 + (snd p - snd q)\<^sup>2)"

subsection \<open>The glow texture\<close>

datatype SDL_BlendMode = SDL_BLENDMODE_NONE | SDL_BLENDMODE_BLEND | SDL_BLENDMODE_ADD

type_synonym rgba = "8 word \<times> 8 word \<times> 8 word \<times> 8 word"

text \<open>
  A texture is its size, its blend mode, its global alpha modulation and its pixels
  (\<open>None\<close> where nothing was drawn). \<open>SDL_CreateTexture\<close> is the library's: a new
  texture has alpha modulation 255 and, for a format with an alpha channel, blend mode
  \<open>SDL_BLENDMODE_BLEND\<close>. The model takes the creation to succeed; the code does not
  check it.
\<close>

record SDL_Texture =
  tex_w :: int
  tex_h :: int
  blend_mode :: SDL_BlendMode
  alpha_mod :: "8 word"
  pixels :: "int \<times> int \<Rightarrow> rgba option"

definition SDL_CreateTexture :: "int \<Rightarrow> int \<Rightarrow> SDL_Texture" where
  "SDL_CreateTexture w h =
     \<lparr>tex_w = w, tex_h = h, blend_mode = SDL_BLENDMODE_BLEND, alpha_mod = 255,
      pixels = (\<lambda>xy. None)\<rparr>"

text \<open>
  The body of the inner loop of \<open>create_glow_texture\<close>: \<open>glow_dist\<close> is the value
  of \<open>dist\<close> after the clamp, \<open>glow_alpha\<close> the value of \<open>alpha\<close>, and
  \<open>glow_pixel\<close> the point drawn with that colour into the target texture. The draw
  blend mode of the renderer is left at its default, none, so the point replaces the
  pixel.
\<close>

definition glow_dist :: "int \<Rightarrow> int \<Rightarrow> int \<Rightarrow> real" where
  "glow_dist radius x y =
     (let dx = f_of_int (x - radius);
          dy = f_of_int (y - radius);
          dist = f_div (f_sqrt (f_add (f_mul dx dx) (f_mul dy dy))) (f_of_int radius)
      in if dist > 1 then 1 else dist)"

definition glow_alpha :: "int \<Rightarrow> int \<Rightarrow> int \<Rightarrow> 8 word" where
  "glow_alpha radius x y =
     Uint8_of_float (f_mul (f_sub 1 (glow_dist radius x y)) (f_of_int 255))"

definition glow_pixel :: "int \<Rightarrow> int \<Rightarrow> int \<Rightarrow> SDL_Texture \<Rightarrow> SDL_Texture" where
  "glow_pixel radius x y tex =
     tex\<lparr>pixels := (pixels tex)((x, y) \<mapsto> (255, 255, 200, glow_alpha radius x y))\<rparr>"

function glow_row :: "int \<Rightarrow> int \<Rightarrow> int \<Rightarrow> SDL_Texture \<Rightarrow> SDL_Texture" where
  "glow_row radius y x tex =
     (if x < radius * 2 then glow_row radius y (x + 1) (glow_pixel radius x y tex) else tex)"
  by pat_completeness auto
termination
  by (relation "measure (\<lambda>(radius, y, x, tex). nat (radius * 2 - x))") auto

declare glow_row.simps [simp del]

function glow_rows :: "int \<Rightarrow> int \<Rightarrow> SDL_Texture \<Rightarrow> SDL_Texture" where
  "glow_rows radius y tex =
     (if y < radius * 2 then glow_rows radius (y + 1) (glow_row radius y 0 tex) else tex)"
  by pat_completeness auto
termination
  by (relation "measure (\<lambda>(radius, y, tex). nat (radius * 2 - y))") auto

declare glow_rows.simps [simp del]

definition create_glow_texture :: "int \<Rightarrow> SDL_Texture" where
  "create_glow_texture radius =
     (let tex = SDL_CreateTexture (radius * 2) (radius * 2);
          tex = tex\<lparr>blend_mode := SDL_BLENDMODE_ADD\<rparr>
      in glow_rows radius 0 tex)"

subsection \<open>The program state and the random source\<close>

record SDL_FPoint =
  pt_x :: real
  pt_y :: real

text \<open>
  The random source is the library's. Its state is a value of a type \<open>'g\<close> the
  program never looks into, and the two functions the program calls are parameters:
  \<open>SDL_randf\<close> returns a float and the next state, \<open>SDL_rand n\<close> an integer and
  the next state. SDL documents \<open>SDL_randf\<close> to return a value in [0, 1);
  \<open>randf_unit\<close> states that.
\<close>

record 'g sdl_random =
  SDL_randf :: "'g \<Rightarrow> real \<times> 'g"
  SDL_rand :: "int \<Rightarrow> 'g \<Rightarrow> int \<times> 'g"

definition randf_unit :: "'g sdl_random \<Rightarrow> bool" where
  "randf_unit R = (\<forall>g. 0 \<le> fst (SDL_randf R g) \<and> fst (SDL_randf R g) < 1)"

text \<open>
  The globals of the program. The two arrays have the fixed size \<open>NUM_POINTS\<close>; they
  are functions of the index, and the program reads and writes indices below
  \<open>NUM_POINTS\<close> only. \<open>glowTex\<close> is \<open>None\<close> for the null pointer.
\<close>

record 'g app =
  points :: "nat \<Rightarrow> SDL_FPoint"
  point_speeds :: "nat \<Rightarrow> real"
  last_time :: "64 word"
  glowTex :: "SDL_Texture option"
  rng :: 'g

definition app_start :: "'g \<Rightarrow> 'g app" where
  "app_start g =
     \<lparr>points = (\<lambda>i. \<lparr>pt_x = 0, pt_y = 0\<rparr>), point_speeds = (\<lambda>i. 0), last_time = 0,
      glowTex = None, rng = g\<rparr>"

subsection \<open>Init callback\<close>

definition seed_point :: "'g sdl_random \<Rightarrow> nat \<Rightarrow> 'g app \<Rightarrow> 'g app" where
  "seed_point R i s =
     (let (rx, g1) = SDL_randf R (rng s);
          (ry, g2) = SDL_randf R g1;
          (rv, g3) = SDL_randf R g2
      in s\<lparr>points := (points s)(i := \<lparr>pt_x = rx * real_of_int WINDOW_WIDTH,
                                       pt_y = ry * real_of_int WINDOW_HEIGHT\<rparr>),
           point_speeds := (point_speeds s)(i :=
             real_of_int MIN_PIXELS_PER_SECOND
               + rv * real_of_int (MAX_PIXELS_PER_SECOND - MIN_PIXELS_PER_SECOND)),
           rng := g3\<rparr>)"

function seed_points :: "'g sdl_random \<Rightarrow> nat \<Rightarrow> 'g app \<Rightarrow> 'g app" where
  "seed_points R i s =
     (if i < NUM_POINTS then seed_points R (Suc i) (seed_point R i s) else s)"
  by pat_completeness auto
termination
  by (relation "measure (\<lambda>(R, i, s). NUM_POINTS - i)") auto

declare seed_points.simps [simp del]

text \<open>
  \<open>SDL_AppInit\<close>. The outcomes of \<open>SDL_Init\<close> and
  \<open>SDL_CreateWindowAndRenderer\<close> and the value of \<open>SDL_GetTicks\<close> are inputs.
  The log lines of the two failure branches, the application metadata and the logical
  presentation of the renderer are left out: no callback reads them.
\<close>

definition SDL_AppInit ::
  "'g sdl_random \<Rightarrow> bool \<Rightarrow> bool \<Rightarrow> 64 word \<Rightarrow> 'g app \<Rightarrow> SDL_AppResult \<times> 'g app" where
  "SDL_AppInit R init_ok create_ok ticks s =
     (if \<not> init_ok then (SDL_APP_FAILURE, s)
      else if \<not> create_ok then (SDL_APP_FAILURE, s)
      else
        let s1 = s\<lparr>glowTex := Some (create_glow_texture 40)\<rparr>;
            s2 = seed_points R 0 s1;
            s3 = s2\<lparr>last_time := ticks\<rparr>
        in (SDL_APP_CONTINUE, s3))"

subsection \<open>Iterate callback\<close>

text \<open>
  The body of the loop over the points, in its two halves: the advance along the
  diagonal, and the check against the window with the respawn.
\<close>

definition advance_point :: "real \<Rightarrow> nat \<Rightarrow> 'g app \<Rightarrow> 'g app" where
  "advance_point elapsed i s =
     (let distance = f_mul elapsed (point_speeds s i);
          p = points s i
      in s\<lparr>points := (points s)(i := p\<lparr>pt_x := f_add (pt_x p) distance,
                                        pt_y := f_add (pt_y p) distance\<rparr>)\<rparr>)"

definition out_of_window :: "SDL_FPoint \<Rightarrow> bool" where
  "out_of_window p =
     (pt_x p \<ge> real_of_int WINDOW_WIDTH \<or> pt_y p \<ge> real_of_int WINDOW_HEIGHT)"

definition wrap_point :: "'g sdl_random \<Rightarrow> nat \<Rightarrow> 'g app \<Rightarrow> 'g app" where
  "wrap_point R i s =
     (if out_of_window (points s i) then
        let (coin, g1) = SDL_rand R 2 (rng s);
            s1 = (if coin \<noteq> 0 then
                    let (r, g2) = SDL_randf R g1
                    in s\<lparr>points := (points s)(i := (points s i)
                            \<lparr>pt_x := r * real_of_int WINDOW_WIDTH, pt_y := 0\<rparr>),
                         rng := g2\<rparr>
                  else
                    let (r, g2) = SDL_randf R g1
                    in s\<lparr>points := (points s)(i := (points s i)
                            \<lparr>pt_x := 0, pt_y := r * real_of_int WINDOW_HEIGHT\<rparr>),
                         rng := g2\<rparr>);
            (rv, g3) = SDL_randf R (rng s1)
        in s1\<lparr>point_speeds := (point_speeds s1)(i :=
                 real_of_int MIN_PIXELS_PER_SECOND
                   + rv * real_of_int (MAX_PIXELS_PER_SECOND - MIN_PIXELS_PER_SECOND)),
               rng := g3\<rparr>
      else s)"

function move_stars :: "'g sdl_random \<Rightarrow> real \<Rightarrow> nat \<Rightarrow> 'g app \<Rightarrow> 'g app" where
  "move_stars R elapsed i s =
     (if i < NUM_POINTS
      then move_stars R elapsed (Suc i) (wrap_point R i (advance_point elapsed i s))
      else s)"
  by pat_completeness auto
termination
  by (relation "measure (\<lambda>(R, elapsed, i, s). NUM_POINTS - i)") auto

declare move_stars.simps [simp del]

text \<open>
  What the callback sends to the renderer. A texture copy records the texture as it is
  when \<open>SDL_RenderTexture\<close> is called: the renderer takes the colour and alpha
  modulation of the texture at that moment. A copy of the null texture fails and draws
  nothing, and so does an alpha modulation of it.
\<close>

record SDL_FRect =
  rect_x :: real
  rect_y :: real
  rect_w :: real
  rect_h :: real

record SDL_Vertex =
  position :: SDL_FPoint
  color :: "real \<times> real \<times> real \<times> real"
  tex_coord :: SDL_FPoint

datatype render_cmd =
    Cmd_SetRenderDrawColor "8 word" "8 word" "8 word" "8 word"
  | Cmd_RenderClear
  | Cmd_RenderPoints "SDL_FPoint list"
  | Cmd_RenderGeometry "SDL_Vertex list"
  | Cmd_RenderTexture SDL_Texture SDL_FRect
  | Cmd_RenderPresent

definition SDL_RenderTexture :: "SDL_Texture option \<Rightarrow> SDL_FRect \<Rightarrow> render_cmd list" where
  "SDL_RenderTexture tex dst = (case tex of None \<Rightarrow> [] | Some t \<Rightarrow> [Cmd_RenderTexture t dst])"

definition SDL_SetTextureAlphaMod :: "SDL_Texture option \<Rightarrow> 8 word \<Rightarrow> SDL_Texture option" where
  "SDL_SetTextureAlphaMod tex alpha = map_option (\<lambda>t. t\<lparr>alpha_mod := alpha\<rparr>) tex"

definition vertex :: "real \<Rightarrow> real \<Rightarrow> real \<times> real \<times> real \<times> real \<Rightarrow> SDL_Vertex" where
  "vertex vx vy col =
     \<lparr>position = \<lparr>pt_x = vx, pt_y = vy\<rparr>, color = col, tex_coord = \<lparr>pt_x = 0, pt_y = 0\<rparr>\<rparr>"

text \<open>
  The seconds since the last frame: the difference of the two \<open>Uint64\<close> tick
  values, converted to \<open>float\<close> and divided by \<open>1000.0f\<close>.
\<close>

definition elapsed_seconds :: "64 word \<Rightarrow> 'g app \<Rightarrow> real" where
  "elapsed_seconds now s = f_div (f_of_Uint64 (now - last_time s)) 1000"

text \<open>
  The value of \<open>distance\<close> in the pass of the loop for point \<open>i\<close>, from the state
  at the start of the frame.
\<close>

definition point_distance :: "64 word \<Rightarrow> 'g app \<Rightarrow> nat \<Rightarrow> real" where
  "point_distance now s i = f_mul (elapsed_seconds now s) (point_speeds s i)"

text \<open>
  \<open>SDL_AppIterate\<close>. The value of \<open>SDL_GetTicks\<close> is the input \<open>now\<close>. The
  result is the signal, the new globals and the commands sent to the renderer, in the
  order of the source.
\<close>

definition SDL_AppIterate ::
  "'g sdl_random \<Rightarrow> 64 word \<Rightarrow> 'g app \<Rightarrow> SDL_AppResult \<times> 'g app \<times> render_cmd list" where
  "SDL_AppIterate R now s =
     (let elapsed = elapsed_seconds now s;
          s1 = move_stars R elapsed 0 s;
          s2 = s1\<lparr>last_time := now\<rparr>;
          stars = [Cmd_SetRenderDrawColor 0 0 0 255, Cmd_RenderClear,
                   Cmd_SetRenderDrawColor 255 255 255 255,
                   Cmd_RenderPoints (map (points s2) [0..<NUM_POINTS])];
          cx = real_of_int WINDOW_WIDTH * 0.5;
          cy = real_of_int WINDOW_HEIGHT * 0.5;
          size = 20;
          base_angle = - pi / 4;
          wobble = sin (real (unat now) * 0.005) * 0.1;
          angle = base_angle + wobble;
          (x1, y1) = rotate_point cx cy (cx, cy - size) angle;
          (x2, y2) = rotate_point cx cy (cx - size, cy + size) angle;
          (x3, y3) = rotate_point cx cy (cx + size, cy + size) angle;
          tx = (x2 + x3) * 0.5;
          ty = (y2 + y3) * 0.5;
          flame_len = 25 + sin (real (unat now) * 0.02) * 6;
          fx = tx - cos angle * flame_len;
          fy = ty - sin angle * flame_len;
          flame = [vertex tx ty (255, 100, 30, 255),
                   vertex x2 y2 (255, 200, 30, 255),
                   vertex x3 y3 (255, 200, 30, 255)];
          ship = [vertex x1 y1 (0, 255, 0, 255),
                  vertex x2 y2 (0, 200, 0, 255),
                  vertex x3 y3 (0, 200, 0, 255)];
          glowDest = \<lparr>rect_x = fx - 40, rect_y = fy - 40, rect_w = 80, rect_h = 80\<rparr>;
          shipGlow = \<lparr>rect_x = cx - 35, rect_y = cy - 35, rect_w = 70, rect_h = 70\<rparr>;
          ambient = \<lparr>rect_x = cx - 120, rect_y = cy - 120, rect_w = 240, rect_h = 240\<rparr>;
          glows = SDL_RenderTexture (glowTex s2) glowDest
                  @ SDL_RenderTexture (glowTex s2) shipGlow
                  @ SDL_RenderTexture (glowTex s2) ambient;
          s3 = s2\<lparr>glowTex := SDL_SetTextureAlphaMod (glowTex s2) 40\<rparr>
      in (SDL_APP_CONTINUE, s3,
          stars @ [Cmd_RenderGeometry flame, Cmd_RenderGeometry ship] @ glows
            @ [Cmd_RenderPresent]))"

text \<open>The alpha modulation each texture copy of a frame was drawn with, in order.\<close>

fun texture_alphas :: "render_cmd list \<Rightarrow> 8 word list" where
  "texture_alphas [] = []"
| "texture_alphas (Cmd_RenderTexture t dst # cs) = alpha_mod t # texture_alphas cs"
| "texture_alphas (c # cs) = texture_alphas cs"

text \<open>The points a frame draws.\<close>

fun drawn_points :: "render_cmd list \<Rightarrow> SDL_FPoint list" where
  "drawn_points [] = []"
| "drawn_points (Cmd_RenderPoints ps # cs) = ps @ drawn_points cs"
| "drawn_points (c # cs) = drawn_points cs"

text \<open>
  The states the program can be in when a callback runs: the state a successful
  \<open>SDL_AppInit\<close> leaves from the zeroed globals, and the state after any further
  \<open>SDL_AppIterate\<close>, at any tick value.
\<close>

inductive reachable :: "'g sdl_random \<Rightarrow> 'g app \<Rightarrow> bool" for R :: "'g sdl_random" where
  reachable_init: "reachable R (snd (SDL_AppInit R True True ticks (app_start g)))"
| reachable_iterate: "reachable R s \<Longrightarrow> reachable R (fst (snd (SDL_AppIterate R now s)))"

text \<open>The window bounds of a point, and of the whole array.\<close>

definition in_window :: "SDL_FPoint \<Rightarrow> bool" where
  "in_window p =
     (0 \<le> pt_x p \<and> pt_x p < real_of_int WINDOW_WIDTH
      \<and> 0 \<le> pt_y p \<and> pt_y p < real_of_int WINDOW_HEIGHT)"

definition all_in_window :: "'g app \<Rightarrow> bool" where
  "all_in_window s = (\<forall>i<NUM_POINTS. in_window (points s i))"

text \<open>
  The arrays of the program hold floats. The arrays of the model hold reals, and
  \<open>float_points\<close> says that the coordinates of the points are floats.
\<close>

definition float_points :: "'g app \<Rightarrow> bool" where
  "float_points s =
     (\<forall>i<NUM_POINTS. is_float (pt_x (points s i)) \<and> is_float (pt_y (points s i)))"

text \<open>The range of the speeds, for one speed and for the whole array.\<close>

definition speed_in_range :: "real \<Rightarrow> bool" where
  "speed_in_range v =
     (real_of_int MIN_PIXELS_PER_SECOND \<le> v \<and> v \<le> real_of_int MAX_PIXELS_PER_SECOND)"

definition all_speeds_in_range :: "'g app \<Rightarrow> bool" where
  "all_speeds_in_range s = (\<forall>i<NUM_POINTS. speed_in_range (point_speeds s i))"

definition stars_ok :: "'g app \<Rightarrow> bool" where
  "stars_ok s = (all_in_window s \<and> all_speeds_in_range s)"

text \<open>
  The specification's distance of a pixel from the centre of the glow texture: the
  Euclidean distance divided by the radius, and the same clamped to [0, 1].
\<close>

definition center_distance :: "int \<Rightarrow> int \<Rightarrow> int \<Rightarrow> real" where
  "center_distance radius x y =
     sqrt (real_of_int ((x - radius)\<^sup>2 + (y - radius)\<^sup>2)) / real_of_int radius"

definition normalized_distance :: "int \<Rightarrow> int \<Rightarrow> int \<Rightarrow> real" where
  "normalized_distance radius x y = max 0 (min 1 (center_distance radius x y))"

text \<open>
  The computation of the glow texture in steps: the squared distance of a pixel from the
  centre, an integer; the float quotient of its square root by the radius; and the
  float value of the alpha for a clamped distance.
\<close>

definition sq_distance :: "int \<Rightarrow> int \<Rightarrow> int \<Rightarrow> int" where
  "sq_distance radius x y = (x - radius)\<^sup>2 + (y - radius)\<^sup>2"

definition rounded_distance :: "int \<Rightarrow> int \<Rightarrow> real" where
  "rounded_distance radius n = f_div (f_sqrt (of_int n)) (of_int radius)"

definition alpha_value :: "real \<Rightarrow> real" where
  "alpha_value g = f_mul (f_sub 1 g) (f_of_int 255)"

text \<open>
  A random source that returns the same float \<open>r\<close> and the same integer \<open>c\<close> at
  every call; its state is the number of calls made.
\<close>

definition const_random :: "real \<Rightarrow> int \<Rightarrow> nat sdl_random" where
  "const_random r c = \<lparr>SDL_randf = (\<lambda>g. (r, Suc g)), SDL_rand = (\<lambda>n g. (c, Suc g))\<rparr>"

section \<open>Lemmas\<close>

subsection \<open>Rounding to float\<close>

lemma round_even_of_int [simp]: "round_even (of_int k) = k"
  by (simp add: round_even_def)

lemma round_even_bounds: "x - 1 / 2 \<le> of_int (round_even x) \<and> of_int (round_even x) \<le> x + 1 / 2"
  unfolding round_even_def Let_def by (auto; linarith)

lemma round_even_floor: "\<lfloor>x\<rfloor> \<le> round_even x \<and> round_even x \<le> \<lfloor>x\<rfloor> + 1"
  by (simp add: round_even_def Let_def)

lemma round_even_mono:
  assumes "x \<le> y"
  shows "round_even x \<le> round_even y"
proof (cases "\<lfloor>x\<rfloor> < \<lfloor>y\<rfloor>")
  case True
  then show ?thesis
    using round_even_floor [of x] round_even_floor [of y] by linarith
next
  case False
  then have eq: "\<lfloor>y\<rfloor> = \<lfloor>x\<rfloor>"
    using floor_mono [OF assms] by simp
  show ?thesis
    using assms unfolding round_even_def Let_def eq by auto
qed

lemma round_even_zero [simp]: "round_even 0 = 0"
  by (simp add: round_even_def)

lemma round_even_nonneg: "0 \<le> x \<Longrightarrow> 0 \<le> round_even x"
  using round_even_mono [of 0 x] by simp

lemma ulp_pos [simp]: "0 < ulp x"
  by (simp add: ulp_def)

lemma ulp_nonzero [simp]: "ulp x \<noteq> 0"
  by (simp add: ulp_def)

lemma ulp_nonneg [simp]: "0 \<le> ulp x"
  by (simp add: ulp_def)

lemma abs_ulp [simp]: "\<bar>ulp x\<bar> = ulp x"
  by (simp add: ulp_def)

lemma to_float_zero [simp]: "to_float 0 = 0"
  by (simp add: to_float_def)

lemma to_float_nonneg: "0 \<le> x \<Longrightarrow> 0 \<le> to_float x"
  unfolding to_float_def
  by (intro mult_nonneg_nonneg) (simp_all add: round_even_nonneg less_imp_le)

text \<open>The rounding error is at most half a unit in the last place.\<close>

lemma to_float_half_ulp: "\<bar>to_float x - x\<bar> \<le> ulp x / 2"
proof -
  let ?d = "of_int (round_even (x / ulp x)) - x / ulp x"
  have eq: "to_float x - x = ?d * ulp x"
    by (simp add: to_float_def algebra_simps)
  have d: "\<bar>?d\<bar> \<le> 1 / 2"
    using round_even_bounds [of "x / ulp x"] by linarith
  have "\<bar>?d * ulp x\<bar> = \<bar>?d\<bar> * ulp x"
    by (simp add: abs_mult)
  also have "\<dots> \<le> 1 / 2 * ulp x"
    using d ulp_pos [of x] by (intro mult_right_mono) simp_all
  finally show ?thesis
    unfolding eq by simp
qed

lemma floor_log2_bounds:
  assumes "0 < x"
  shows "2 powr of_int \<lfloor>log 2 x\<rfloor> \<le> x" and "x < 2 powr (of_int \<lfloor>log 2 x\<rfloor> + 1)"
  using floor_log_eq_powr_iff [of x 2 "\<lfloor>log 2 x\<rfloor>"] assms by simp_all

lemma to_float_error: "\<bar>to_float x - x\<bar> \<le> \<bar>x\<bar> / 2 ^ 24 + 1 / 2 ^ 150"
proof (cases "x \<noteq> 0 \<and> - 126 \<le> \<lfloor>log 2 \<bar>x\<bar>\<rfloor>")
  case True
  then have e: "ulp_exponent x = \<lfloor>log 2 \<bar>x\<bar>\<rfloor> - 23"
    by (simp add: ulp_exponent_def)
  have "ulp x / 2 = 2 powr of_int \<lfloor>log 2 \<bar>x\<bar>\<rfloor> / 2 ^ 24"
    by (simp add: ulp_def e powr_diff)
  also have "\<dots> \<le> \<bar>x\<bar> / 2 ^ 24"
    using floor_log2_bounds(1) [of "\<bar>x\<bar>"] True by (simp add: divide_right_mono)
  finally have "\<bar>to_float x - x\<bar> \<le> \<bar>x\<bar> / 2 ^ 24"
    using to_float_half_ulp [of x] by (rule order_trans [rotated])
  then show ?thesis
    by (rule add_increasing2 [rotated]) simp
next
  case False
  then have "x = 0 \<or> ulp_exponent x = - 149"
    by (auto simp: ulp_exponent_def)
  then show ?thesis
  proof
    assume "x = 0"
    then show ?thesis by simp
  next
    assume "ulp_exponent x = - 149"
    then have "ulp x / 2 = 1 / 2 ^ 150"
      by (simp add: ulp_def powr_minus_divide)
    then have "\<bar>to_float x - x\<bar> \<le> 1 / 2 ^ 150"
      using to_float_half_ulp [of x] by (simp only:)
    then show ?thesis
      by (rule add_increasing [rotated]) simp
  qed
qed

text \<open>Integers below \<open>2 ^ 24\<close> in magnitude are floats.\<close>

lemma to_float_of_int:
  assumes "\<bar>k\<bar> < 2 ^ 24"
  shows "to_float (of_int k) = of_int k"
proof (cases "k = 0")
  case True
  then show ?thesis by simp
next
  case False
  let ?x = "real_of_int k"
  let ?e = "\<lfloor>log 2 \<bar>?x\<bar>\<rfloor>"
  have pos: "0 < \<bar>?x\<bar>" and ge1: "1 \<le> \<bar>?x\<bar>"
    using False by simp_all
  have lo: "0 \<le> ?e"
    using ge1 by simp
  have "real_of_int \<bar>k\<bar> < real_of_int (2 ^ 24)"
    using assms by (simp only: of_int_less_iff)
  then have "\<bar>?x\<bar> < 2 powr 24"
    by simp
  then have "log 2 \<bar>?x\<bar> < 24"
    using pos by (simp add: log_less_iff)
  then have hi: "?e \<le> 23"
    by linarith
  have e: "ulp_exponent ?x = ?e - 23"
    using lo by (simp add: ulp_exponent_def)
  define n where "n = nat (23 - ?e)"
  have n: "of_int (?e - 23) = - real n"
    using hi by (simp add: n_def)
  have u: "ulp ?x = 1 / 2 ^ n"
    unfolding ulp_def e n by (simp add: powr_minus_divide powr_realpow)
  have "?x / ulp ?x = of_int (k * 2 ^ n)"
    by (simp add: u)
  then have "round_even (?x / ulp ?x) = k * 2 ^ n"
    by (simp only: round_even_of_int)
  then show ?thesis
    by (simp add: to_float_def u)
qed

text \<open>A power of two with a natural exponent, as a quotient of two units.\<close>

lemma powr_int_quotient:
  assumes "b \<le> a"
  shows "(2 :: real) powr of_int a / 2 powr of_int b = of_int (2 ^ nat (a - b))"
proof -
  have "(2 :: real) powr of_int a / 2 powr of_int b = 2 powr (of_int a - of_int b)"
    by (simp add: powr_diff)
  also have "of_int a - of_int b = real (nat (a - b))"
    using assms by simp
  also have "(2 :: real) powr real (nat (a - b)) = 2 ^ nat (a - b)"
    by (simp add: powr_realpow)
  finally show ?thesis by simp
qed

lemma ulp_exponent_mono:
  assumes "0 < x" and "x \<le> y"
  shows "ulp_exponent x \<le> ulp_exponent y"
proof -
  have "log 2 \<bar>x\<bar> \<le> log 2 \<bar>y\<bar>"
    using assms by simp
  then have "\<lfloor>log 2 \<bar>x\<bar>\<rfloor> \<le> \<lfloor>log 2 \<bar>y\<bar>\<rfloor>"
    by (rule floor_mono)
  then show ?thesis
    by (simp add: ulp_exponent_def)
qed

lemma to_float_mono:
  assumes "0 \<le> x" and "x \<le> y"
  shows "to_float x \<le> to_float y"
proof (cases "x = 0")
  case True
  then show ?thesis
    using to_float_nonneg [of y] assms by simp
next
  case False
  then have x: "0 < x" and y: "0 < y"
    using assms by simp_all
  have le: "ulp_exponent x \<le> ulp_exponent y"
    using x assms(2) by (rule ulp_exponent_mono)
  show ?thesis
  proof (cases "ulp_exponent x = ulp_exponent y")
    case True
    then have u: "ulp y = ulp x"
      by (simp add: ulp_def)
    have "x / ulp x \<le> y / ulp x"
      using assms(2) by (simp add: divide_right_mono)
    then have "round_even (x / ulp x) \<le> round_even (y / ulp x)"
      by (rule round_even_mono)
    then show ?thesis
      unfolding to_float_def u by (simp add: mult_right_mono)
  next
    case False
    then have lt: "ulp_exponent x < ulp_exponent y"
      using le by simp
    let ?E = "\<lfloor>log 2 y\<rfloor>"
    let ?B = "2 powr of_int ?E"
    have m: "max \<lfloor>log 2 x\<rfloor> (- 126) < max ?E (- 126)"
      using lt x y by (simp add: ulp_exponent_def)
    have ex: "\<lfloor>log 2 x\<rfloor> < ?E" and "- 126 < ?E"
      using m by linarith+
    then have ey: "ulp_exponent y = ?E - 23"
      using y by (simp add: ulp_exponent_def)
    have exE: "ulp_exponent x \<le> ?E"
      using lt ey by simp
    have "x < 2 powr (of_int \<lfloor>log 2 x\<rfloor> + 1)"
      by (rule floor_log2_bounds(2) [OF x])
    also have "\<dots> \<le> ?B"
      using ex by (simp add: powr_mono flip: of_int_add [of _ 1, simplified])
    finally have xB: "x \<le> ?B" by simp
    have By: "?B \<le> y"
      by (rule floor_log2_bounds(1) [OF y])
    have "to_float x \<le> ?B"
    proof -
      have q: "?B / ulp x = of_int (2 ^ nat (?E - ulp_exponent x))"
        unfolding ulp_def by (rule powr_int_quotient [OF exE])
      have "x / ulp x \<le> ?B / ulp x"
        using xB by (simp add: divide_right_mono)
      then have "round_even (x / ulp x) \<le> round_even (?B / ulp x)"
        by (rule round_even_mono)
      then have "round_even (x / ulp x) \<le> 2 ^ nat (?E - ulp_exponent x)"
        by (simp only: q round_even_of_int)
      then have "of_int (round_even (x / ulp x)) \<le> ?B / ulp x"
        unfolding q by (simp only: of_int_le_iff)
      then show ?thesis
        unfolding to_float_def by (simp add: pos_le_divide_eq)
    qed
    also have "?B \<le> to_float y"
    proof -
      have q: "?B / ulp y = of_int (2 ^ nat (?E - ulp_exponent y))"
        unfolding ulp_def by (rule powr_int_quotient) (simp add: ey)
      have "?B / ulp y \<le> y / ulp y"
        using By by (simp add: divide_right_mono)
      then have "round_even (?B / ulp y) \<le> round_even (y / ulp y)"
        by (rule round_even_mono)
      then have "2 ^ nat (?E - ulp_exponent y) \<le> round_even (y / ulp y)"
        by (simp only: q round_even_of_int)
      then have "?B / ulp y \<le> of_int (round_even (y / ulp y))"
        unfolding q by (simp only: of_int_le_iff)
      then show ?thesis
        unfolding to_float_def by (simp add: pos_divide_le_eq)
    qed
    finally show ?thesis .
  qed
qed

text \<open>Rounding a positive number whose unit in the last place is known.\<close>

lemma to_float_eval:
  assumes "2 ^ 23 \<le> x * 2 ^ k" and "x * 2 ^ k < 2 ^ 24" and "k \<le> 149"
  shows "to_float x = of_int (round_even (x * 2 ^ k)) / 2 ^ k"
proof -
  have p: "(2 :: real) powr (23 - real k) = 2 ^ 23 / 2 ^ k"
    "(2 :: real) powr (24 - real k) = 2 ^ 24 / 2 ^ k"
    by (simp_all add: powr_diff powr_realpow)
  have x: "0 < x"
  proof (rule ccontr)
    assume "\<not> 0 < x"
    then have "x * 2 ^ k \<le> 0"
      by (simp add: mult_le_0_iff)
    moreover have "(0 :: real) < 2 ^ 23"
      by simp
    ultimately show False
      using assms(1) by linarith
  qed
  have "2 powr of_int (23 - int k) \<le> x \<and> x < 2 powr (of_int (23 - int k) + 1)"
    using assms(1,2) by (simp add: p pos_divide_le_eq pos_less_divide_eq)
  then have "\<lfloor>log 2 x\<rfloor> = 23 - int k"
    using x by (simp add: floor_log_eq_powr_iff)
  then have "ulp_exponent x = - int k"
    using x assms(3) by (simp add: ulp_exponent_def)
  then have "ulp x = 1 / 2 ^ k"
    by (simp add: ulp_def powr_minus_divide powr_realpow)
  then show ?thesis
    by (simp add: to_float_def)
qed

lemma to_float_one [simp]: "to_float 1 = 1"
  using to_float_of_int [of 1] by simp

lemma to_float_numeral [simp]:
  "\<bar>numeral k :: int\<bar> < 2 ^ 24 \<Longrightarrow> to_float (numeral k) = numeral k"
  using to_float_of_int [of "numeral k"] by simp

lemma to_float_le_int:
  assumes "0 \<le> x" and "x \<le> of_int k" and "\<bar>k\<bar> < 2 ^ 24"
  shows "to_float x \<le> of_int k"
  using to_float_mono [OF assms(1,2)] to_float_of_int [OF assms(3)] by simp

lemma to_float_ge_int:
  assumes "0 \<le> k" and "of_int k \<le> x" and "\<bar>k\<bar> < 2 ^ 24"
  shows "of_int k \<le> to_float x"
  using to_float_mono [of "of_int k" x] assms to_float_of_int [OF assms(3)] by simp

subsection \<open>Rotation\<close>

lemma rotation_squares:
  fixes a b c s :: real
  shows "(a * c - b * s)\<^sup>2 + (a * s + b * c)\<^sup>2 = (a\<^sup>2 + b\<^sup>2) * (s\<^sup>2 + c\<^sup>2)"
  by (simp add: power2_eq_square algebra_simps)

lemma rotate_point_diff:
  "fst (rotate_point cx cy p angle) - fst (rotate_point cx cy q angle)
     = (fst p - fst q) * cos angle - (snd p - snd q) * sin angle"
  "snd (rotate_point cx cy p angle) - snd (rotate_point cx cy q angle)
     = (fst p - fst q) * sin angle + (snd p - snd q) * cos angle"
  by (simp_all add: rotate_point_def Let_def algebra_simps)

subsection \<open>The glow texture\<close>

lemma pixels_glow_pixel:
  "pixels (glow_pixel radius x y tex) q =
     (if q = (x, y) then Some (255, 255, 200, glow_alpha radius x y) else pixels tex q)"
  by (simp add: glow_pixel_def)

lemma pixels_glow_row:
  "pixels (glow_row radius y x tex) (x', y') =
     (if y' = y \<and> x \<le> x' \<and> x' < radius * 2
      then Some (255, 255, 200, glow_alpha radius x' y)
      else pixels tex (x', y'))"
proof (induction radius y x tex rule: glow_row.induct)
  case (1 radius y x tex)
  show ?case
  proof (cases "x < radius * 2")
    case True
    then have "pixels (glow_row radius y x tex) (x', y')
               = pixels (glow_row radius y (x + 1) (glow_pixel radius x y tex)) (x', y')"
      by (subst glow_row.simps) simp
    also have "\<dots> = (if y' = y \<and> x + 1 \<le> x' \<and> x' < radius * 2
                      then Some (255, 255, 200, glow_alpha radius x' y)
                      else pixels (glow_pixel radius x y tex) (x', y'))"
      using "1.IH" [OF True] .
    finally show ?thesis
      using True by (auto simp: pixels_glow_pixel)
  next
    case False
    then show ?thesis
      by (subst glow_row.simps) auto
  qed
qed

lemma pixels_glow_rows:
  "pixels (glow_rows radius y tex) (x', y') =
     (if y \<le> y' \<and> y' < radius * 2 \<and> 0 \<le> x' \<and> x' < radius * 2
      then Some (255, 255, 200, glow_alpha radius x' y')
      else pixels tex (x', y'))"
proof (induction radius y tex rule: glow_rows.induct)
  case (1 radius y tex)
  show ?case
  proof (cases "y < radius * 2")
    case True
    then have "pixels (glow_rows radius y tex) (x', y')
               = pixels (glow_rows radius (y + 1) (glow_row radius y 0 tex)) (x', y')"
      by (subst glow_rows.simps) simp
    also have "\<dots> = (if y + 1 \<le> y' \<and> y' < radius * 2 \<and> 0 \<le> x' \<and> x' < radius * 2
                      then Some (255, 255, 200, glow_alpha radius x' y')
                      else pixels (glow_row radius y 0 tex) (x', y'))"
      using "1.IH" [OF True] .
    finally show ?thesis
      using True by (auto simp: pixels_glow_row)
  next
    case False
    then show ?thesis
      by (subst glow_rows.simps) auto
  qed
qed

lemma pixels_create_glow_texture:
  "pixels (create_glow_texture radius) (x, y) =
     (if 0 \<le> x \<and> x < radius * 2 \<and> 0 \<le> y \<and> y < radius * 2
      then Some (255, 255, 200, glow_alpha radius x y) else None)"
  by (simp add: create_glow_texture_def Let_def pixels_glow_rows SDL_CreateTexture_def)


text \<open>
  Inside a texture of radius at most 2048 the squared distance from the centre is an
  integer below \<open>2\<^sup>2\<^sup>4\<close>, so the float computation of it is exact.
\<close>

lemma offset_square:
  fixes x radius :: int
  assumes "0 \<le> x" and "x < radius * 2"
  shows "(x - radius)\<^sup>2 \<le> radius\<^sup>2"
proof -
  have "\<bar>x - radius\<bar> \<le> \<bar>radius\<bar>"
    using assms by linarith
  then show ?thesis
    by (simp only: abs_le_square_iff)
qed

lemma radius_square:
  fixes radius :: int
  assumes "0 < radius" and "radius \<le> 2048"
  shows "radius\<^sup>2 \<le> 4194304"
proof -
  have "radius * radius \<le> 2048 * 2048"
    using assms by (intro mult_mono) simp_all
  then show ?thesis
    by (simp add: power2_eq_square)
qed

lemma glow_dist_sqrt:
  assumes "0 \<le> x" and "x < radius * 2" and "0 \<le> y" and "y < radius * 2"
    and "radius \<le> 2048"
  shows "glow_dist radius x y =
     (let q = to_float (to_float (sqrt (of_int ((x - radius)\<^sup>2 + (y - radius)\<^sup>2)))
                / of_int radius)
      in if q > 1 then 1 else q)"
proof -
  have r: "0 < radius"
    using assms(1,2) by simp
  have sx: "(x - radius)\<^sup>2 \<le> 4194304" and sy: "(y - radius)\<^sup>2 \<le> 4194304"
    using offset_square [OF assms(1,2)] offset_square [OF assms(3,4)]
      radius_square [OF r assms(5)] by linarith+
  have ax: "\<bar>x - radius\<bar> < 2 ^ 24" and ay: "\<bar>y - radius\<bar> < 2 ^ 24"
    and ar: "\<bar>radius\<bar> < 2 ^ 24"
    using assms r by simp_all
  have dx: "f_of_int (x - radius) = of_int (x - radius)"
    and dy: "f_of_int (y - radius) = of_int (y - radius)"
    and fr: "f_of_int radius = of_int radius"
    unfolding f_of_int_def by (rule to_float_of_int [OF ax] to_float_of_int [OF ay]
        to_float_of_int [OF ar])+
  have mx: "f_mul (of_int (x - radius)) (of_int (x - radius)) = of_int ((x - radius)\<^sup>2)"
    using to_float_of_int [of "(x - radius)\<^sup>2"] sx
    by (simp add: f_mul_def power2_eq_square)
  have my: "f_mul (of_int (y - radius)) (of_int (y - radius)) = of_int ((y - radius)\<^sup>2)"
    using to_float_of_int [of "(y - radius)\<^sup>2"] sy
    by (simp add: f_mul_def power2_eq_square)
  have sum: "f_add (of_int ((x - radius)\<^sup>2)) (of_int ((y - radius)\<^sup>2))
             = of_int ((x - radius)\<^sup>2 + (y - radius)\<^sup>2)"
    using to_float_of_int [of "(x - radius)\<^sup>2 + (y - radius)\<^sup>2"] sx sy
    by (simp add: f_add_def)
  show ?thesis
    unfolding glow_dist_def Let_def dx dy fr mx my sum
    by (simp add: f_div_def f_sqrt_def)
qed

lemma glow_dist_rounded:
  assumes "0 \<le> x" and "x < radius * 2" and "0 \<le> y" and "y < radius * 2"
    and "radius \<le> 2048"
  shows "glow_dist radius x y = min 1 (rounded_distance radius (sq_distance radius x y))"
  unfolding glow_dist_sqrt [OF assms] rounded_distance_def sq_distance_def f_div_def f_sqrt_def
  by (simp add: Let_def min_def)

lemma glow_alpha_value: "glow_alpha radius x y = Uint8_of_float (alpha_value (glow_dist radius x y))"
  by (simp add: glow_alpha_def alpha_value_def)

lemma sq_distance_bounds:
  assumes "0 \<le> x" and "x < radius * 2" and "0 \<le> y" and "y < radius * 2"
  shows "0 \<le> sq_distance radius x y" and "sq_distance radius x y \<le> 2 * radius\<^sup>2"
  using offset_square [OF assms(1,2)] offset_square [OF assms(3,4)]
  by (simp_all add: sq_distance_def)

lemma center_distance_sq:
  "center_distance radius x y = sqrt (of_int (sq_distance radius x y)) / of_int radius"
  by (simp add: center_distance_def sq_distance_def)

lemma rounded_distance_nonneg:
  assumes "0 < radius" and "0 \<le> n"
  shows "0 \<le> rounded_distance radius n"
  unfolding rounded_distance_def f_div_def f_sqrt_def
  using assms by (intro to_float_nonneg divide_nonneg_nonneg) simp_all

lemma rounded_distance_mono:
  assumes "0 < radius" and "n \<le> m" and "0 \<le> n"
  shows "rounded_distance radius n \<le> rounded_distance radius m"
proof -
  have "sqrt (of_int n) \<le> sqrt (of_int m)"
    using assms(2) by simp
  then have "to_float (sqrt (of_int n)) \<le> to_float (sqrt (of_int m))"
    using assms(3) by (intro to_float_mono) simp_all
  then have "to_float (sqrt (of_int n)) / of_int radius \<le> to_float (sqrt (of_int m)) / of_int radius"
    using assms(1) by (simp add: divide_right_mono)
  then show ?thesis
    unfolding rounded_distance_def f_div_def f_sqrt_def
    using assms(1,3) by (intro to_float_mono divide_nonneg_nonneg to_float_nonneg) simp_all
qed

lemma rounded_distance_ge_one:
  assumes "0 < radius" and "radius \<le> 2048" and "radius\<^sup>2 \<le> n"
  shows "1 \<le> rounded_distance radius n"
proof -
  have ar: "\<bar>radius\<bar> < 2 ^ 24"
    using assms(1,2) by simp
  have "of_int radius = sqrt ((of_int radius)\<^sup>2)"
    using assms(1) by simp
  also have "\<dots> \<le> sqrt (of_int n)"
    using assms(3) by (simp only: real_sqrt_le_iff flip: of_int_power) simp?
  finally have "of_int radius \<le> to_float (sqrt (of_int n))"
    using assms(1) ar by (intro to_float_ge_int) simp_all
  then have "1 \<le> to_float (sqrt (of_int n)) / of_int radius"
    using assms(1) by (simp add: pos_le_divide_eq)
  then have "to_float 1 \<le> to_float (to_float (sqrt (of_int n)) / of_int radius)"
    by (intro to_float_mono) simp_all
  then show ?thesis
    by (simp add: rounded_distance_def f_div_def f_sqrt_def)
qed

lemma alpha_value_unfold: "alpha_value g = to_float (to_float (1 - g) * 255)"
  by (simp add: alpha_value_def f_mul_def f_sub_def f_of_int_def)

lemma complement_range:
  assumes "0 \<le> g" and "g \<le> 1"
  shows "0 \<le> to_float (1 - g)" and "to_float (1 - g) \<le> 1"
  using to_float_nonneg [of "1 - g"] to_float_mono [of "1 - g" 1] assms by simp_all

lemma alpha_value_range:
  assumes "0 \<le> g" and "g \<le> 1"
  shows "0 \<le> alpha_value g" and "alpha_value g \<le> 255"
proof -
  note c = complement_range [OF assms]
  show "0 \<le> alpha_value g"
    unfolding alpha_value_unfold using c(1) by (intro to_float_nonneg) simp
  have "to_float (to_float (1 - g) * 255) \<le> to_float 255"
    using c by (intro to_float_mono) simp_all
  then show "alpha_value g \<le> 255"
    by (simp add: alpha_value_unfold)
qed

lemma alpha_value_antimono:
  assumes "g \<le> h" and "h \<le> 1"
  shows "alpha_value h \<le> alpha_value g"
proof -
  have "to_float (1 - h) \<le> to_float (1 - g)"
    using assms by (intro to_float_mono) simp_all
  moreover have "0 \<le> to_float (1 - h)"
    using assms(2) by (intro to_float_nonneg) simp
  ultimately show ?thesis
    unfolding alpha_value_unfold by (intro to_float_mono) simp_all
qed

lemma abs_diff_chain: "\<bar>a - c\<bar> \<le> \<bar>a - b\<bar> + \<bar>b - c\<bar>" for a b c :: real
  by linarith

lemma alpha_value_error:
  assumes "0 \<le> g" and "g \<le> 1"
  shows "\<bar>alpha_value g - (1 - g) * 255\<bar> \<le> 511 / 2 ^ 24 + 256 / 2 ^ 150"
proof -
  let ?t = "to_float (1 - g)"
  define e1 :: real where "e1 = 255 / 2 ^ 24 + 1 / 2 ^ 150"
  define e2 :: real where "e2 = 1 / 2 ^ 24 + 1 / 2 ^ 150"
  note c = complement_range [OF assms]
  have "\<bar>1 - g\<bar> \<le> 1" and "\<bar>?t * 255\<bar> \<le> 255"
    using assms c by simp_all
  then have b2: "\<bar>1 - g\<bar> / 2 ^ 24 + 1 / 2 ^ 150 \<le> e2"
    and b1: "\<bar>?t * 255\<bar> / 2 ^ 24 + 1 / 2 ^ 150 \<le> e1"
    unfolding e1_def e2_def by (simp_all only: add_le_cancel_right divide_right_mono
        zero_le_power zero_le_numeral)
  have t: "\<bar>?t - (1 - g)\<bar> \<le> e2"
    by (rule order_trans [OF to_float_error b2])
  have v: "\<bar>alpha_value g - ?t * 255\<bar> \<le> e1"
    unfolding alpha_value_unfold by (rule order_trans [OF to_float_error b1])
  have "alpha_value g - (1 - g) * 255 = (alpha_value g - ?t * 255) + 255 * (?t - (1 - g))"
    by (simp add: algebra_simps)
  moreover have "\<bar>a + 255 * b\<bar> \<le> \<bar>a\<bar> + 255 * \<bar>b\<bar>" for a b :: real
    by linarith
  ultimately have "\<bar>alpha_value g - (1 - g) * 255\<bar>
      \<le> \<bar>alpha_value g - ?t * 255\<bar> + 255 * \<bar>?t - (1 - g)\<bar>"
    by (simp only:)
  also have "\<dots> \<le> e1 + 255 * e2"
    by (intro add_mono mult_left_mono t v) simp
  finally have "\<bar>alpha_value g - (1 - g) * 255\<bar> \<le> e1 + 255 * e2" .
  also have "\<dots> \<le> 511 / 2 ^ 24 + 256 / 2 ^ 150"
    by (simp add: e1_def e2_def)
  finally show ?thesis .
qed

lemma rounded_distance_error:
  assumes "0 < radius" and "0 \<le> n" and "n \<le> 2 * radius\<^sup>2"
  shows "\<bar>rounded_distance radius n - sqrt (of_int n) / of_int radius\<bar>
         \<le> 7 / 2 ^ 25 + 2 / 2 ^ 150"
proof -
  let ?r = "real_of_int radius"
  let ?S = "sqrt (of_int n)"
  let ?s = "to_float ?S"
  have r: "1 \<le> ?r"
    using assms(1) by simp
  have "of_int n \<le> (3 / 2 * ?r)\<^sup>2"
  proof -
    have "real_of_int n \<le> of_int (2 * radius\<^sup>2)"
      using assms(3) by (simp only: of_int_le_iff)
    also have "\<dots> \<le> (3 / 2 * ?r)\<^sup>2"
      by (simp add: power2_eq_square)
    finally show ?thesis .
  qed
  then have S: "?S \<le> 3 / 2 * ?r"
    using r by (intro real_le_lsqrt) simp_all
  have S0: "0 \<le> ?S"
    using assms(2) by simp
  have "?S / ?r \<le> (3 / 2 * ?r) / ?r"
    using S r by (intro divide_right_mono) simp_all
  also have "(3 / 2 * ?r) / ?r = 3 / 2"
    using r by simp
  finally have D: "?S / ?r \<le> 3 / 2" .
  have s: "\<bar>?s - ?S\<bar> \<le> \<bar>?S\<bar> / 2 ^ 24 + 1 / 2 ^ 150"
    by (rule to_float_error)
  have "\<bar>?s / ?r - ?S / ?r\<bar> = \<bar>?s - ?S\<bar> / ?r"
    using r by (simp add: diff_divide_distrib [symmetric])
  also have "\<dots> \<le> (?S / 2 ^ 24 + 1 / 2 ^ 150) / ?r"
    using s S0 r by (intro divide_right_mono) simp_all
  also have "\<dots> = (?S / ?r) / 2 ^ 24 + (1 / 2 ^ 150) / ?r"
    by (simp add: add_divide_distrib)
  also have "\<dots> \<le> (3 / 2) / 2 ^ 24 + 1 / 2 ^ 150"
  proof (intro add_mono)
    show "?S / ?r / 2 ^ 24 \<le> 3 / 2 / 2 ^ 24"
      using D by (intro divide_right_mono) simp_all
    have "1 / 2 ^ 150 / ?r \<le> 1 / 2 ^ 150 / 1"
      using r by (intro divide_left_mono) simp_all
    then show "1 / 2 ^ 150 / ?r \<le> 1 / 2 ^ 150"
      by simp
  qed
  finally have e1: "\<bar>?s / ?r - ?S / ?r\<bar> \<le> (3 / 2) / 2 ^ 24 + 1 / 2 ^ 150" .
  define e3 :: real where "e3 = (3 / 2) / 2 ^ 24 + 1 / 2 ^ 150"
  define e4 :: real where "e4 = 2 / 2 ^ 24 + 1 / 2 ^ 150"
  have e3: "\<bar>?s / ?r - ?S / ?r\<bar> \<le> e3"
    using e1 by (simp only: e3_def)
  have D0: "0 \<le> ?S / ?r"
    using S0 r by simp
  have "e3 \<le> 1 / 2"
    by (simp add: e3_def)
  then have "\<bar>?s / ?r\<bar> \<le> 2"
    using e3 D D0 by linarith
  then have "\<bar>?s / ?r\<bar> / 2 ^ 24 + 1 / 2 ^ 150 \<le> e4"
    unfolding e4_def by (simp only: add_le_cancel_right divide_right_mono
        zero_le_power zero_le_numeral)
  then have "\<bar>rounded_distance radius n - ?s / ?r\<bar> \<le> e4"
    unfolding rounded_distance_def f_div_def f_sqrt_def
    by (rule order_trans [OF to_float_error])
  then have "\<bar>rounded_distance radius n - ?s / ?r\<bar> + \<bar>?s / ?r - ?S / ?r\<bar> \<le> e4 + e3"
    using e3 by (intro add_mono)
  moreover have "\<bar>rounded_distance radius n - ?S / ?r\<bar>
      \<le> \<bar>rounded_distance radius n - ?s / ?r\<bar> + \<bar>?s / ?r - ?S / ?r\<bar>"
    by (rule abs_diff_chain)
  ultimately have "\<bar>rounded_distance radius n - ?S / ?r\<bar> \<le> e3 + e4"
    by simp
  also have "\<dots> \<le> 7 / 2 ^ 25 + 2 / 2 ^ 150"
    by (simp add: e3_def e4_def)
  finally show ?thesis .
qed

lemma uint_Uint8_of_float:
  assumes "0 \<le> f" "f \<le> 255"
  shows "uint (Uint8_of_float f) = \<lfloor>f\<rfloor>"
proof -
  have "0 \<le> \<lfloor>f\<rfloor>" "\<lfloor>f\<rfloor> < 256"
    using assms by (simp_all add: floor_less_iff)
  then have "uint (word_of_int \<lfloor>f\<rfloor> :: 8 word) = \<lfloor>f\<rfloor>"
    by (simp add: uint_word_of_int take_bit_int_eq_self)
  then show ?thesis
    using assms by (simp add: Uint8_of_float_def)
qed


lemma min_one_diff: "\<bar>min 1 a - min 1 b\<bar> \<le> \<bar>a - b\<bar>" for a b :: real
  by linarith

lemma normalized_distance_min:
  assumes "0 < radius" and "0 \<le> sq_distance radius x y"
  shows "normalized_distance radius x y = min 1 (center_distance radius x y)"
proof -
  have "0 \<le> center_distance radius x y"
    unfolding center_distance_sq using assms by simp
  then show ?thesis
    by (simp add: normalized_distance_def)
qed

text \<open>
  Facts about one pixel inside a texture of radius at most 2048: the clamped float
  distance, its range, and its distance from the exact one.
\<close>

lemma glow_dist_facts:
  assumes "0 \<le> x" and "x < radius * 2" and "0 \<le> y" and "y < radius * 2"
    and "radius \<le> 2048"
  shows "0 \<le> glow_dist radius x y" and "glow_dist radius x y \<le> 1"
    and "\<bar>glow_dist radius x y - normalized_distance radius x y\<bar> \<le> 7 / 2 ^ 25 + 2 / 2 ^ 150"
proof -
  have r: "0 < radius"
    using assms(1,2) by simp
  note n = sq_distance_bounds [OF assms(1-4)]
  note g = glow_dist_rounded [OF assms]
  show "0 \<le> glow_dist radius x y" and "glow_dist radius x y \<le> 1"
    unfolding g using rounded_distance_nonneg [OF r n(1)] by simp_all
  have "\<bar>glow_dist radius x y - normalized_distance radius x y\<bar>
        \<le> \<bar>rounded_distance radius (sq_distance radius x y) - center_distance radius x y\<bar>"
    unfolding g normalized_distance_min [OF r n(1)] by (rule min_one_diff)
  also have "\<dots> \<le> 7 / 2 ^ 25 + 2 / 2 ^ 150"
    unfolding center_distance_sq by (rule rounded_distance_error [OF r n])
  finally show "\<bar>glow_dist radius x y - normalized_distance radius x y\<bar>
                \<le> 7 / 2 ^ 25 + 2 / 2 ^ 150" .
qed

lemma uint_glow_alpha:
  assumes "0 \<le> x" and "x < radius * 2" and "0 \<le> y" and "y < radius * 2"
    and "radius \<le> 2048"
  shows "uint (glow_alpha radius x y) = \<lfloor>alpha_value (glow_dist radius x y)\<rfloor>"
  unfolding glow_alpha_value
  using glow_dist_facts(1,2) [OF assms]
  by (intro uint_Uint8_of_float alpha_value_range)

lemma glow_alpha_near:
  assumes "0 \<le> x" and "x < radius * 2" and "0 \<le> y" and "y < radius * 2"
    and "radius \<le> 2048"
  shows "(1 - normalized_distance radius x y) * 255 - 1 - 1 / 8192
           < real_of_int (uint (glow_alpha radius x y))"
    and "real_of_int (uint (glow_alpha radius x y))
           \<le> (1 - normalized_distance radius x y) * 255 + 1 / 8192"
proof -
  let ?g = "glow_dist radius x y" and ?d = "normalized_distance radius x y"
  define e5 :: real where "e5 = 511 / 2 ^ 24 + 256 / 2 ^ 150"
  define e6 :: real where "e6 = 7 / 2 ^ 25 + 2 / 2 ^ 150"
  note g = glow_dist_facts [OF assms]
  have v: "\<bar>alpha_value ?g - (1 - ?g) * 255\<bar> \<le> e5"
    unfolding e5_def by (rule alpha_value_error [OF g(1,2)])
  have d: "\<bar>?g - ?d\<bar> \<le> e6"
    unfolding e6_def by (rule g(3))
  have "alpha_value ?g - (1 - ?d) * 255 = (alpha_value ?g - (1 - ?g) * 255) + 255 * (?d - ?g)"
    by (simp add: algebra_simps)
  moreover have "\<bar>a + 255 * b\<bar> \<le> \<bar>a\<bar> + 255 * \<bar>b\<bar>" for a b :: real
    by linarith
  ultimately have "\<bar>alpha_value ?g - (1 - ?d) * 255\<bar>
      \<le> \<bar>alpha_value ?g - (1 - ?g) * 255\<bar> + 255 * \<bar>?d - ?g\<bar>"
    by (simp only:)
  then have "\<bar>alpha_value ?g - (1 - ?d) * 255\<bar>
      \<le> \<bar>alpha_value ?g - (1 - ?g) * 255\<bar> + 255 * \<bar>?g - ?d\<bar>"
    by (simp only: abs_minus_commute [of ?d ?g])
  also have "\<dots> \<le> e5 + 255 * e6"
    by (intro add_mono mult_left_mono v d) simp
  also have "\<dots> \<le> 1 / 8192"
    by (simp add: e5_def e6_def)
  finally have near: "\<bar>alpha_value ?g - (1 - ?d) * 255\<bar> \<le> 1 / 8192" .
  have fl: "real_of_int \<lfloor>alpha_value ?g\<rfloor> \<le> alpha_value ?g"
    "alpha_value ?g - 1 < real_of_int \<lfloor>alpha_value ?g\<rfloor>"
    by linarith+
  show "(1 - ?d) * 255 - 1 - 1 / 8192 < real_of_int (uint (glow_alpha radius x y))"
    and "real_of_int (uint (glow_alpha radius x y)) \<le> (1 - ?d) * 255 + 1 / 8192"
    unfolding uint_glow_alpha [OF assms] using near fl by linarith+
qed

lemma glow_alpha_mono:
  assumes "0 \<le> x" and "x < radius * 2" and "0 \<le> y" and "y < radius * 2"
    and "0 \<le> x'" and "x' < radius * 2" and "0 \<le> y'" and "y' < radius * 2"
    and "radius \<le> 2048"
    and "center_distance radius x y \<le> center_distance radius x' y'"
  shows "glow_alpha radius x' y' \<le> glow_alpha radius x y"
proof -
  have r: "0 < radius"
    using assms(1,2) by simp
  note n = sq_distance_bounds [OF assms(1-4)]
  have "sqrt (of_int (sq_distance radius x y)) \<le> sqrt (of_int (sq_distance radius x' y'))"
    using assms(10) r unfolding center_distance_sq by (simp add: divide_le_cancel)
  then have "sq_distance radius x y \<le> sq_distance radius x' y'"
    by simp
  then have "rounded_distance radius (sq_distance radius x y)
             \<le> rounded_distance radius (sq_distance radius x' y')"
    using r n(1) by (intro rounded_distance_mono)
  then have "glow_dist radius x y \<le> glow_dist radius x' y'"
    unfolding glow_dist_rounded [OF assms(1-4,9)] glow_dist_rounded [OF assms(5-8,9)]
    by (simp add: min_le_iff_disj)
  then have "alpha_value (glow_dist radius x' y') \<le> alpha_value (glow_dist radius x y)"
    using glow_dist_facts(2) [OF assms(5-8,9)] by (intro alpha_value_antimono)
  then have "\<lfloor>alpha_value (glow_dist radius x' y')\<rfloor> \<le> \<lfloor>alpha_value (glow_dist radius x y)\<rfloor>"
    by (rule floor_mono)
  then show ?thesis
    by (simp only: word_le_def uint_glow_alpha [OF assms(1-4,9)] uint_glow_alpha [OF assms(5-8,9)])
qed

lemma glow_alpha_zero:
  assumes "0 \<le> x" and "x < radius * 2" and "0 \<le> y" and "y < radius * 2"
    and "radius \<le> 2048"
    and "1 \<le> center_distance radius x y"
  shows "glow_alpha radius x y = 0"
proof -
  have r: "0 < radius"
    using assms(1,2) by simp
  have "real_of_int radius \<le> sqrt (of_int (sq_distance radius x y))"
    using assms(6) r unfolding center_distance_sq by (simp add: pos_le_divide_eq)
  then have "sqrt ((real_of_int radius)\<^sup>2) \<le> sqrt (of_int (sq_distance radius x y))"
    using r by simp
  then have "(real_of_int radius)\<^sup>2 \<le> of_int (sq_distance radius x y)"
    by (simp only: real_sqrt_le_iff)
  then have "radius\<^sup>2 \<le> sq_distance radius x y"
    by (simp only: of_int_le_iff flip: of_int_power)
  then have "1 \<le> rounded_distance radius (sq_distance radius x y)"
    by (rule rounded_distance_ge_one [OF r assms(5)])
  then have "glow_dist radius x y = 1"
    unfolding glow_dist_rounded [OF assms(1-5)] by simp
  then show ?thesis
    by (simp add: glow_alpha_value alpha_value_unfold Uint8_of_float_def)
qed

text \<open>Three pixels of the texture of radius 40, computed.\<close>

lemma glow_alpha_41_40: "glow_alpha 40 41 40 = 248"
proof -
  have q: "to_float (1 / 40) = 13421773 / 536870912"
    using to_float_eval [of "1 / 40" 29] by (simp add: round_even_def)
  have t: "to_float (1 - 13421773 / 536870912) = 8178893 / 8388608"
    using to_float_eval [of "1 - 13421773 / 536870912" 24] by (simp add: round_even_def)
  have v: "to_float (8178893 / 8388608 * 255) = 1989 / 8"
    using to_float_eval [of "8178893 / 8388608 * 255" 16] by (simp add: round_even_def)
  have g: "glow_dist 40 41 40 = 13421773 / 536870912"
    using glow_dist_sqrt [of 41 40 40] by (simp add: q)
  show ?thesis
    unfolding glow_alpha_value alpha_value_unfold g t v by (simp add: Uint8_of_float_def)
qed

lemma glow_alpha_64_40: "glow_alpha 40 64 40 = 101"
proof -
  have s: "sqrt 576 = 24"
    using real_sqrt_abs [of 24] by simp
  have q: "to_float (3 / 5) = 5033165 / 8388608"
    using to_float_eval [of "3 / 5" 24] by (simp add: round_even_def)
  have t: "to_float (1 - 5033165 / 8388608) = 3355443 / 8388608"
    using to_float_eval [of "1 - 5033165 / 8388608" 25] by (simp add: round_even_def)
  have v: "to_float (3355443 / 8388608 * 255) = 13369343 / 131072"
    using to_float_eval [of "3355443 / 8388608 * 255" 17] by (simp add: round_even_def)
  have g: "glow_dist 40 64 40 = 5033165 / 8388608"
    using glow_dist_sqrt [of 64 40 40] by (simp add: s q)
  show ?thesis
    unfolding glow_alpha_value alpha_value_unfold g t v by (simp add: Uint8_of_float_def)
qed

lemma glow_alpha_72_40: "glow_alpha 40 72 40 = 50"
proof -
  have s: "sqrt 1024 = 32"
    using real_sqrt_abs [of 32] by simp
  have q: "to_float (4 / 5) = 13421773 / 16777216"
    using to_float_eval [of "4 / 5" 24] by (simp add: round_even_def)
  have t: "to_float (1 - 13421773 / 16777216) = 3355443 / 16777216"
    using to_float_eval [of "1 - 13421773 / 16777216" 26] by (simp add: round_even_def)
  have v: "to_float (3355443 / 16777216 * 255) = 13369343 / 262144"
    using to_float_eval [of "3355443 / 16777216 * 255" 18] by (simp add: round_even_def)
  have g: "glow_dist 40 72 40 = 13421773 / 16777216"
    using glow_dist_sqrt [of 72 40 40] by (simp add: s q)
  show ?thesis
    unfolding glow_alpha_value alpha_value_unfold g t v by (simp add: Uint8_of_float_def)
qed

subsection \<open>The star loop\<close>

lemmas window_consts =
  WINDOW_WIDTH_def WINDOW_HEIGHT_def MIN_PIXELS_PER_SECOND_def MAX_PIXELS_PER_SECOND_def

lemma randf_unitD:
  "randf_unit R \<Longrightarrow>
     0 \<le> fst (SDL_randf R g) \<and> fst (SDL_randf R g) < 1 \<and> fst (SDL_randf R g) \<le> 1"
  by (simp add: randf_unit_def less_imp_le)

subsection \<open>The advance\<close>

lemma points_advance_point:
  "points (advance_point elapsed i s) j =
     (if j = i
      then \<lparr>pt_x = f_add (pt_x (points s i)) (f_mul elapsed (point_speeds s i)),
            pt_y = f_add (pt_y (points s i)) (f_mul elapsed (point_speeds s i))\<rparr>
      else points s j)"
  by (simp add: advance_point_def Let_def)

lemma advance_point_frame [simp]:
  "point_speeds (advance_point elapsed i s) = point_speeds s"
  "rng (advance_point elapsed i s) = rng s"
  "glowTex (advance_point elapsed i s) = glowTex s"
  "last_time (advance_point elapsed i s) = last_time s"
  by (simp_all add: advance_point_def Let_def)

lemma advance_point_zero:
  assumes "is_float (pt_x (points s i))" and "is_float (pt_y (points s i))"
  shows "advance_point 0 i s = s"
  using assms by (simp add: advance_point_def Let_def f_mul_def f_add_def is_float_def)

subsection \<open>The wrap check\<close>

lemma wrap_point_inside: "\<not> out_of_window (points s i) \<Longrightarrow> wrap_point R i s = s"
  by (simp add: wrap_point_def)

lemma wrap_point_other:
  "j \<noteq> i \<Longrightarrow> points (wrap_point R i s) j = points s j"
  "j \<noteq> i \<Longrightarrow> point_speeds (wrap_point R i s) j = point_speeds s j"
  by (simp_all add: wrap_point_def Let_def split_def)

lemma wrap_point_frame [simp]:
  "glowTex (wrap_point R i s) = glowTex s"
  "last_time (wrap_point R i s) = last_time s"
  by (simp_all add: wrap_point_def Let_def split_def)

lemma wrap_point_respawn:
  assumes "randf_unit R" and "out_of_window (points s i)"
  shows "in_window (points (wrap_point R i s) i)"
    and "speed_in_range (point_speeds (wrap_point R i s) i)"
  using assms(2) randf_unitD [OF assms(1)]
  by (simp_all add: wrap_point_def Let_def split_def in_window_def speed_in_range_def
      window_consts)

subsection \<open>One pass of the loop body\<close>

lemma star_step_in_window:
  assumes "randf_unit R" and "0 \<le> elapsed" and "0 \<le> point_speeds s i"
    and "in_window (points s i)"
  shows "in_window (points (wrap_point R i (advance_point elapsed i s)) i)"
proof (cases "out_of_window (points (advance_point elapsed i s) i)")
  case True
  then show ?thesis
    by (rule wrap_point_respawn(1) [OF assms(1)])
next
  case False
  have "0 \<le> f_mul elapsed (point_speeds s i)"
    unfolding f_mul_def using assms(2,3) by (intro to_float_nonneg) simp
  then have "0 \<le> f_add (pt_x (points s i)) (f_mul elapsed (point_speeds s i))"
    and "0 \<le> f_add (pt_y (points s i)) (f_mul elapsed (point_speeds s i))"
    unfolding f_add_def using assms(4) by (intro to_float_nonneg; simp add: in_window_def)+
  then have "in_window (points (advance_point elapsed i s) i)"
    using False
    by (simp add: points_advance_point in_window_def out_of_window_def)
  then show ?thesis
    by (simp add: wrap_point_inside [OF False])
qed

lemma star_step_speed:
  assumes "randf_unit R" and "speed_in_range (point_speeds s i)"
  shows "speed_in_range (point_speeds (wrap_point R i (advance_point elapsed i s)) i)"
proof (cases "out_of_window (points (advance_point elapsed i s) i)")
  case True
  then show ?thesis
    by (rule wrap_point_respawn(2) [OF assms(1)])
next
  case False
  then show ?thesis
    using assms(2) by (simp add: wrap_point_inside)
qed

lemma star_step_other:
  assumes "j \<noteq> i"
  shows "points (wrap_point R i (advance_point elapsed i s)) j = points s j"
    and "point_speeds (wrap_point R i (advance_point elapsed i s)) j = point_speeds s j"
  using assms by (simp_all add: wrap_point_other points_advance_point)

lemma speed_in_range_nonneg: "speed_in_range v \<Longrightarrow> 0 \<le> v"
  by (simp add: speed_in_range_def window_consts)

lemma star_step_ok:
  assumes "randf_unit R" and "0 \<le> elapsed" and "stars_ok s"
  shows "stars_ok (wrap_point R i (advance_point elapsed i s))"
proof -
  let ?s' = "wrap_point R i (advance_point elapsed i s)"
  have "in_window (points ?s' j) \<and> speed_in_range (point_speeds ?s' j)"
    if "j < NUM_POINTS" for j
  proof (cases "j = i")
    case True
    have w: "in_window (points s i)" and v: "speed_in_range (point_speeds s i)"
      using assms(3) that True
      by (simp_all add: stars_ok_def all_in_window_def all_speeds_in_range_def)
    show ?thesis
      unfolding True
      using star_step_in_window [OF assms(1,2) speed_in_range_nonneg [OF v] w]
        star_step_speed [OF assms(1) v] by simp
  next
    case False
    then show ?thesis
      using assms(3) that
      by (simp add: star_step_other stars_ok_def all_in_window_def all_speeds_in_range_def)
  qed
  then show ?thesis
    by (simp add: stars_ok_def all_in_window_def all_speeds_in_range_def)
qed

subsection \<open>The loop\<close>

lemma move_stars_ok:
  "randf_unit R \<Longrightarrow> 0 \<le> elapsed \<Longrightarrow> stars_ok s \<Longrightarrow> stars_ok (move_stars R elapsed i s)"
proof (induction R elapsed i s rule: move_stars.induct)
  case (1 R elapsed i s)
  show ?case
  proof (cases "i < NUM_POINTS")
    case True
    have "stars_ok (wrap_point R i (advance_point elapsed i s))"
      using "1.prems" by (rule star_step_ok)
    then have "stars_ok (move_stars R elapsed (Suc i) (wrap_point R i (advance_point elapsed i s)))"
      using "1.IH" [OF True "1.prems"(1,2)] by simp
    then show ?thesis
      using True by (subst move_stars.simps) simp
  next
    case False
    then show ?thesis
      using "1.prems" by (subst move_stars.simps) simp
  qed
qed

lemma move_stars_frame:
  "glowTex (move_stars R elapsed i s) = glowTex s
   \<and> last_time (move_stars R elapsed i s) = last_time s"
proof (induction R elapsed i s rule: move_stars.induct)
  case (1 R elapsed i s)
  show ?case
  proof (cases "i < NUM_POINTS")
    case True
    then show ?thesis
      using "1.IH" [OF True] by (subst (1 2) move_stars.simps) simp
  next
    case False
    then show ?thesis
      by (subst (1 2) move_stars.simps) simp
  qed
qed

lemma move_stars_passed:
  "j < i \<Longrightarrow> points (move_stars R elapsed i s) j = points s j
     \<and> point_speeds (move_stars R elapsed i s) j = point_speeds s j"
proof (induction R elapsed i s rule: move_stars.induct)
  case (1 R elapsed i s)
  show ?case
  proof (cases "i < NUM_POINTS")
    case True
    have "j < Suc i" and "j \<noteq> i"
      using "1.prems" by simp_all
    then show ?thesis
      using "1.IH" [OF True \<open>j < Suc i\<close>] True
      by (subst (1 2) move_stars.simps) (simp add: star_step_other)
  next
    case False
    then show ?thesis
      by (subst (1 2) move_stars.simps) simp
  qed
qed

text \<open>Index j is handled in a state that still holds its point and speed of the start.\<close>

lemma move_stars_at:
  "i \<le> j \<Longrightarrow> j < NUM_POINTS \<Longrightarrow>
   \<exists>s'. points s' j = points s j \<and> point_speeds s' j = point_speeds s j
     \<and> points (move_stars R elapsed i s) j
         = points (wrap_point R j (advance_point elapsed j s')) j
     \<and> point_speeds (move_stars R elapsed i s) j
         = point_speeds (wrap_point R j (advance_point elapsed j s')) j"
proof (induction R elapsed i s rule: move_stars.induct)
  case (1 R elapsed i s)
  let ?s1 = "wrap_point R i (advance_point elapsed i s)"
  have lt: "i < NUM_POINTS"
    using "1.prems" by simp
  have unfold: "move_stars R elapsed i s = move_stars R elapsed (Suc i) ?s1"
    using lt by (subst move_stars.simps) simp
  show ?case
  proof (cases "i = j")
    case True
    have "points (move_stars R elapsed (Suc i) ?s1) j = points ?s1 j
          \<and> point_speeds (move_stars R elapsed (Suc i) ?s1) j = point_speeds ?s1 j"
      using True by (intro move_stars_passed) simp
    then show ?thesis
      unfolding unfold using True by (intro exI [of _ s]) simp
  next
    case False
    then have "Suc i \<le> j"
      using "1.prems" by simp
    from "1.IH" [OF lt this "1.prems"(2)] obtain s' where
      s': "points s' j = points ?s1 j" "point_speeds s' j = point_speeds ?s1 j"
        "points (move_stars R elapsed (Suc i) ?s1) j
           = points (wrap_point R j (advance_point elapsed j s')) j"
        "point_speeds (move_stars R elapsed (Suc i) ?s1) j
           = point_speeds (wrap_point R j (advance_point elapsed j s')) j"
      by blast
    have "points ?s1 j = points s j" "point_speeds ?s1 j = point_speeds s j"
      using False by (simp_all add: star_step_other)
    with s' show ?thesis
      unfolding unfold by (intro exI [of _ s']) simp
  qed
qed

lemma move_stars_idle:
  "all_in_window s \<Longrightarrow> float_points s \<Longrightarrow> move_stars R 0 i s = s"
proof (induction R "0::real" i s rule: move_stars.induct)
  case (1 R i s)
  show ?case
  proof (cases "i < NUM_POINTS")
    case True
    then have "\<not> out_of_window (points s i)"
      using "1.prems" by (auto simp: all_in_window_def in_window_def out_of_window_def)
    moreover have "advance_point 0 i s = s"
      using "1.prems"(2) True by (intro advance_point_zero) (simp_all add: float_points_def)
    ultimately have "wrap_point R i (advance_point 0 i s) = s"
      by (simp add: wrap_point_inside)
    then show ?thesis
      using "1.hyps" [OF True] "1.prems" True by (subst move_stars.simps) simp
  next
    case False
    then show ?thesis
      by (subst move_stars.simps) simp
  qed
qed

subsection \<open>Seeding\<close>

lemma seed_point_other:
  "j \<noteq> i \<Longrightarrow> points (seed_point R i s) j = points s j"
  "j \<noteq> i \<Longrightarrow> point_speeds (seed_point R i s) j = point_speeds s j"
  by (simp_all add: seed_point_def Let_def split_def)

lemma seed_point_frame [simp]:
  "glowTex (seed_point R i s) = glowTex s"
  "last_time (seed_point R i s) = last_time s"
  by (simp_all add: seed_point_def Let_def split_def)

lemma seed_point_at:
  assumes "randf_unit R"
  shows "in_window (points (seed_point R i s) i)"
    and "speed_in_range (point_speeds (seed_point R i s) i)"
  using randf_unitD [OF assms]
  by (simp_all add: seed_point_def Let_def split_def in_window_def speed_in_range_def
      window_consts)

text \<open>What every seeded point and speed satisfies holds for the whole arrays after the loop.\<close>

lemma seed_points_all:
  "(\<And>i s. P (points (seed_point R i s) i) (point_speeds (seed_point R i s) i)) \<Longrightarrow>
   (\<forall>j<i. j < NUM_POINTS \<longrightarrow> P (points s j) (point_speeds s j)) \<Longrightarrow>
   j < NUM_POINTS \<Longrightarrow>
   P (points (seed_points R i s) j) (point_speeds (seed_points R i s) j)"
proof (induction R i s rule: seed_points.induct)
  case (1 R i s)
  show ?case
  proof (cases "i < NUM_POINTS")
    case True
    have "\<forall>k<Suc i. k < NUM_POINTS \<longrightarrow>
            P (points (seed_point R i s) k) (point_speeds (seed_point R i s) k)"
    proof (intro allI impI)
      fix k assume "k < Suc i" "k < NUM_POINTS"
      show "P (points (seed_point R i s) k) (point_speeds (seed_point R i s) k)"
      proof (cases "k = i")
        case True
        then show ?thesis
          using "1.prems"(1) by simp
      next
        case False
        then have "k < i" using \<open>k < Suc i\<close> by simp
        then show ?thesis
          using False "1.prems"(2) \<open>k < NUM_POINTS\<close> by (simp add: seed_point_other)
      qed
    qed
    then have "P (points (seed_points R (Suc i) (seed_point R i s)) j)
                 (point_speeds (seed_points R (Suc i) (seed_point R i s)) j)"
      using "1.IH" [OF True "1.prems"(1)] "1.prems"(3) by simp
    then show ?thesis
      using True by (subst (1 2) seed_points.simps) simp
  next
    case False
    then have "P (points s j) (point_speeds s j)"
      using "1.prems" by simp
    then show ?thesis
      using False by (subst (1 2) seed_points.simps) simp
  qed
qed

lemma seed_points_ok:
  assumes "randf_unit R"
  shows "stars_ok (seed_points R 0 s)"
proof -
  have "in_window (points (seed_points R 0 s) j)
        \<and> speed_in_range (point_speeds (seed_points R 0 s) j)" if "j < NUM_POINTS" for j
    using seed_point_at [OF assms] that
    by (intro seed_points_all [where P = "\<lambda>p v. in_window p \<and> speed_in_range v"]) simp_all
  then show ?thesis
    by (simp add: stars_ok_def all_in_window_def all_speeds_in_range_def)
qed

text \<open>The arrays after Init with a random source that returns the same float at every call.\<close>

lemma seed_point_const:
  "points (seed_point (const_random r c) i s) i
     = \<lparr>pt_x = r * real_of_int WINDOW_WIDTH, pt_y = r * real_of_int WINDOW_HEIGHT\<rparr>
   \<and> point_speeds (seed_point (const_random r c) i s) i
     = real_of_int MIN_PIXELS_PER_SECOND
         + r * real_of_int (MAX_PIXELS_PER_SECOND - MIN_PIXELS_PER_SECOND)"
  by (simp add: seed_point_def const_random_def)

lemma seed_points_const:
  assumes "j < NUM_POINTS"
  shows "points (seed_points (const_random r c) 0 s) j
           = \<lparr>pt_x = r * real_of_int WINDOW_WIDTH, pt_y = r * real_of_int WINDOW_HEIGHT\<rparr>
    \<and> point_speeds (seed_points (const_random r c) 0 s) j
           = real_of_int MIN_PIXELS_PER_SECOND
               + r * real_of_int (MAX_PIXELS_PER_SECOND - MIN_PIXELS_PER_SECOND)"
  using seed_point_const assms
  by (intro seed_points_all [where P = "\<lambda>p v.
        p = \<lparr>pt_x = r * real_of_int WINDOW_WIDTH, pt_y = r * real_of_int WINDOW_HEIGHT\<rparr>
        \<and> v = real_of_int MIN_PIXELS_PER_SECOND
                + r * real_of_int (MAX_PIXELS_PER_SECOND - MIN_PIXELS_PER_SECOND)"]) simp_all

lemma seed_points_frame:
  "glowTex (seed_points R i s) = glowTex s \<and> last_time (seed_points R i s) = last_time s"
proof (induction R i s rule: seed_points.induct)
  case (1 R i s)
  show ?case
  proof (cases "i < NUM_POINTS")
    case True
    then show ?thesis
      using "1.IH" [OF True] by (subst (1 2) seed_points.simps) simp
  next
    case False
    then show ?thesis
      by (subst (1 2) seed_points.simps) simp
  qed
qed

subsection \<open>The callbacks\<close>

lemma SDL_AppInit_state:
  "snd (SDL_AppInit R True True ticks s)
     = (seed_points R 0 (s\<lparr>glowTex := Some (create_glow_texture 40)\<rparr>))\<lparr>last_time := ticks\<rparr>"
  by (simp add: SDL_AppInit_def Let_def)

lemma stars_ok_last_time [simp]: "stars_ok (s\<lparr>last_time := t\<rparr>) = stars_ok s"
  by (simp add: stars_ok_def all_in_window_def all_speeds_in_range_def)

lemma stars_ok_glowTex [simp]: "stars_ok (s\<lparr>glowTex := t\<rparr>) = stars_ok s"
  by (simp add: stars_ok_def all_in_window_def all_speeds_in_range_def)

lemma SDL_AppInit_ok:
  "randf_unit R \<Longrightarrow> stars_ok (snd (SDL_AppInit R True True ticks s))"
  by (simp add: SDL_AppInit_state seed_points_ok)

lemma SDL_AppInit_const:
  assumes "j < NUM_POINTS"
  shows "points (snd (SDL_AppInit (const_random r c) True True ticks s)) j
           = \<lparr>pt_x = r * 640, pt_y = r * 480\<rparr>"
    and "point_speeds (snd (SDL_AppInit (const_random r c) True True ticks s)) j = 30 + r * 930"
    and "last_time (snd (SDL_AppInit (const_random r c) True True ticks s)) = ticks"
  using seed_points_const [OF assms, of r c]
  by (simp_all add: SDL_AppInit_state window_consts)

lemma elapsed_seconds_nonneg: "0 \<le> elapsed_seconds now s"
  unfolding elapsed_seconds_def f_div_def f_of_Uint64_def
  by (intro to_float_nonneg divide_nonneg_nonneg of_nat_0_le_iff) simp

lemma elapsed_seconds_same_tick: "elapsed_seconds (last_time s) s = 0"
  by (simp add: elapsed_seconds_def f_div_def f_of_Uint64_def)

lemma elapsed_seconds_1000: "now - last_time s = 1000 \<Longrightarrow> elapsed_seconds now s = 1"
  by (simp add: elapsed_seconds_def f_div_def f_of_Uint64_def)

lemma SDL_AppIterate_state:
  "fst (snd (SDL_AppIterate R now s))
     = (move_stars R (elapsed_seconds now s) 0 s)
         \<lparr>last_time := now, glowTex := SDL_SetTextureAlphaMod (glowTex s) 40\<rparr>"
  by (simp add: SDL_AppIterate_def Let_def split_def move_stars_frame)

lemma drawn_points_append [simp]:
  "drawn_points (xs @ ys) = drawn_points xs @ drawn_points ys"
  by (induction xs rule: drawn_points.induct) simp_all

lemma texture_alphas_append [simp]:
  "texture_alphas (xs @ ys) = texture_alphas xs @ texture_alphas ys"
  by (induction xs rule: texture_alphas.induct) simp_all

lemma drawn_points_SDL_RenderTexture [simp]: "drawn_points (SDL_RenderTexture t dst) = []"
  by (simp add: SDL_RenderTexture_def split: option.splits)

lemma texture_alphas_SDL_RenderTexture:
  "texture_alphas (SDL_RenderTexture t dst) = (case t of None \<Rightarrow> [] | Some tex \<Rightarrow> [alpha_mod tex])"
  by (simp add: SDL_RenderTexture_def split: option.splits)


lemma SDL_AppIterate_alphas:
  "texture_alphas (snd (snd (SDL_AppIterate R now s)))
     = (case glowTex s of None \<Rightarrow> [] | Some tex \<Rightarrow> replicate 3 (alpha_mod tex))"
  by (simp add: SDL_AppIterate_def Let_def split_def texture_alphas_SDL_RenderTexture
      move_stars_frame numeral_3_eq_3 split: option.splits)

lemma SDL_AppIterate_ok:
  "randf_unit R \<Longrightarrow> stars_ok s \<Longrightarrow> stars_ok (fst (snd (SDL_AppIterate R now s)))"
proof -
  assume R: "randf_unit R" and s: "stars_ok s"
  have "0 \<le> elapsed_seconds now s"
    by (rule elapsed_seconds_nonneg)
  then have "stars_ok (move_stars R (elapsed_seconds now s) 0 s)"
    using R s by (intro move_stars_ok)
  then show ?thesis
    by (simp add: SDL_AppIterate_state)
qed

lemma reachable_ok:
  assumes "randf_unit R" and "reachable R s"
  shows "stars_ok s"
  using assms(2)
proof (induction rule: reachable.induct)
  case (reachable_init ticks g)
  show ?case
    using assms(1) by (rule SDL_AppInit_ok)
next
  case (reachable_iterate s now)
  then show ?case
    using assms(1) by (intro SDL_AppIterate_ok)
qed

lemma alpha_mod_glow_row: "alpha_mod (glow_row radius y x tex) = alpha_mod tex"
proof (induction radius y x tex rule: glow_row.induct)
  case (1 radius y x tex)
  then show ?case
    by (subst glow_row.simps) (simp add: glow_pixel_def)
qed

lemma alpha_mod_glow_rows: "alpha_mod (glow_rows radius y tex) = alpha_mod tex"
proof (induction radius y tex rule: glow_rows.induct)
  case (1 radius y tex)
  then show ?case
    by (subst glow_rows.simps) (simp add: alpha_mod_glow_row)
qed

lemma alpha_mod_create_glow_texture: "alpha_mod (create_glow_texture radius) = 255"
  by (simp add: create_glow_texture_def Let_def alpha_mod_glow_rows SDL_CreateTexture_def)

lemma glowTex_SDL_AppInit:
  "glowTex (snd (SDL_AppInit R True True ticks s)) = Some (create_glow_texture 40)"
  by (simp add: SDL_AppInit_state seed_points_frame)

lemma glowTex_reachable:
  "reachable R s \<Longrightarrow> \<exists>tex. glowTex s = Some tex"
  by (induction rule: reachable.induct)
     (simp_all add: glowTex_SDL_AppInit SDL_AppIterate_state SDL_SetTextureAlphaMod_def)

text \<open>
  The pass of the loop for index i, seen from the start of the frame: the advanced point,
  and the point the callback leaves when the wrap check does not fire.
\<close>

lemma iterate_point_advanced:
  assumes "i < NUM_POINTS"
  shows "\<exists>t. points t i = points s i \<and> point_speeds t i = point_speeds s i
           \<and> points (fst (snd (SDL_AppIterate R now s))) i
              = points (wrap_point R i (advance_point (elapsed_seconds now s) i t)) i
           \<and> point_speeds (fst (snd (SDL_AppIterate R now s))) i
              = point_speeds (wrap_point R i (advance_point (elapsed_seconds now s) i t)) i
           \<and> points (advance_point (elapsed_seconds now s) i t) i
              = \<lparr>pt_x = f_add (pt_x (points s i)) (point_distance now s i),
                 pt_y = f_add (pt_y (points s i)) (point_distance now s i)\<rparr>"
proof -
  let ?e = "elapsed_seconds now s"
  from move_stars_at [of 0 i s R ?e] assms obtain t where
    t: "points t i = points s i" "point_speeds t i = point_speeds s i"
      "points (move_stars R ?e 0 s) i = points (wrap_point R i (advance_point ?e i t)) i"
      "point_speeds (move_stars R ?e 0 s) i
         = point_speeds (wrap_point R i (advance_point ?e i t)) i"
    by auto
  have "points (advance_point ?e i t) i
        = \<lparr>pt_x = f_add (pt_x (points s i)) (point_distance now s i),
           pt_y = f_add (pt_y (points s i)) (point_distance now s i)\<rparr>"
    by (simp add: points_advance_point t point_distance_def)
  then show ?thesis
    using t by (intro exI [of _ t]) (simp add: SDL_AppIterate_state)
qed

lemma iterate_point_untriggered:
  assumes "i < NUM_POINTS"
    and "\<not> out_of_window
            \<lparr>pt_x = f_add (pt_x (points s i)) (point_distance now s i),
             pt_y = f_add (pt_y (points s i)) (point_distance now s i)\<rparr>"
  shows "points (fst (snd (SDL_AppIterate R now s))) i
           = \<lparr>pt_x = f_add (pt_x (points s i)) (point_distance now s i),
              pt_y = f_add (pt_y (points s i)) (point_distance now s i)\<rparr>
    \<and> point_speeds (fst (snd (SDL_AppIterate R now s))) i = point_speeds s i"
proof -
  let ?e = "elapsed_seconds now s"
  from iterate_point_advanced [OF assms(1), of s R now] obtain t where
    t: "point_speeds t i = point_speeds s i"
      "points (fst (snd (SDL_AppIterate R now s))) i
         = points (wrap_point R i (advance_point ?e i t)) i"
      "point_speeds (fst (snd (SDL_AppIterate R now s))) i
         = point_speeds (wrap_point R i (advance_point ?e i t)) i"
      "points (advance_point ?e i t) i
         = \<lparr>pt_x = f_add (pt_x (points s i)) (point_distance now s i),
            pt_y = f_add (pt_y (points s i)) (point_distance now s i)\<rparr>"
    by blast
  have "\<not> out_of_window (points (advance_point ?e i t) i)"
    unfolding t(4) by (rule assms(2))
  then have "wrap_point R i (advance_point ?e i t) = advance_point ?e i t"
    by (rule wrap_point_inside)
  then show ?thesis
    using t by simp
qed

section \<open>Theorems: window demo\<close>

text \<open>
  C8. If the initialisation of the video subsystem fails, the window demo logs a
  diagnostic and returns -1; it makes no window-creation call and no delay call. If the
  initialisation succeeds, it creates the window, waits 5000 ms, releases the
  subsystem and returns 0.
\<close>

theorem main_init_failure_or_success:
  "main False w = (- 1, [Call_Init, Call_Log ''Failed!''])
   \<and> filter is_CreateWindow (snd (main False w)) = []
   \<and> filter is_Delay (snd (main False w)) = []
   \<and> main True w = (0, [Call_Init, Call_CreateWindow ''Cavan - SDL3'' 320 240,
                         Call_Delay 5000, Call_Quit])"
  by (simp add: main_def)

text \<open>
  C10. The result of the window creation is never examined: whatever the call returned,
  the null pointer included, the program waits the full 5000 ms, releases the subsystem
  and exits with status 0.
\<close>

theorem main_ignores_window:
  "fst (main True w) = 0
   \<and> snd (main True w) = snd (main True None)
   \<and> drop 2 (snd (main True w)) = [Call_Delay 5000, Call_Quit]"
  by (simp add: main_def)

section \<open>Theorems: event callback\<close>

text \<open>
  C7. The event callback returns the success-termination signal exactly when the
  event is the quit request, and the continue signal for every other event.
\<close>

theorem SDL_AppEvent_quit_iff:
  "(SDL_AppEvent e = SDL_APP_SUCCESS) = (event_type e = SDL_EVENT_QUIT)
   \<and> (SDL_AppEvent e = SDL_APP_CONTINUE) = (event_type e \<noteq> SDL_EVENT_QUIT)
   \<and> SDL_AppEvent e \<noteq> SDL_APP_FAILURE"
  by (simp add: SDL_AppEvent_def)

section \<open>Theorems: points and ship demo\<close>



text \<open>
  C2 (the code differs). The alpha modulation the three glow copies of a frame are drawn
  with is not 40 in every frame: \<open>SDL_SetTextureAlphaMod\<close> is called after the three
  copies, so the copies of the first frame after Init are drawn with the alpha
  modulation the texture was created with, 255, whatever the tick value and the random
  source.
\<close>

theorem first_frame_glow_alpha:
  "texture_alphas (snd (snd (SDL_AppIterate R now
      (snd (SDL_AppInit R True True ticks (app_start g))))))
   = [255, 255, 255]"
  by (simp add: SDL_AppIterate_alphas glowTex_SDL_AppInit alpha_mod_create_glow_texture
      numeral_3_eq_3)

text \<open>From the second frame on the three copies are drawn with alpha modulation 40.\<close>

lemma later_frames_glow_alpha:
  assumes "reachable R s"
  shows "texture_alphas (snd (snd (SDL_AppIterate R now'
           (fst (snd (SDL_AppIterate R now s))))))
         = [40, 40, 40]"
proof -
  from glowTex_reachable [OF assms] obtain tex where "glowTex s = Some tex" ..
  then show ?thesis
    by (simp add: SDL_AppIterate_alphas SDL_AppIterate_state SDL_SetTextureAlphaMod_def
        numeral_3_eq_3)
qed

text \<open>
  C3. \<open>rotate_point\<close> is a rigid transform: for every centre, every angle and every
  two points, the two vertices of the ship among them, the Euclidean distance between
  the rotated points is the distance between the points. The arithmetic is exact.
\<close>

theorem rotate_point_preserves_distance:
  "distance_between (rotate_point cx cy p angle) (rotate_point cx cy q angle)
   = distance_between p q"
proof -
  let ?a = "fst p - fst q" and ?b = "snd p - snd q"
  have "(?a * cos angle - ?b * sin angle)\<^sup>2 + (?a * sin angle + ?b * cos angle)\<^sup>2
        = ?a\<^sup>2 + ?b\<^sup>2"
    unfolding rotation_squares by simp
  then show ?thesis
    unfolding distance_between_def rotate_point_diff by simp
qed

text \<open>
  C4 (as stated, false). The claim says that the alpha of a pixel equals
  (1 - d) * 255. The pixel (41, 40) of the texture of radius 40 has d = 1/40 and
  alpha 248, not 248.625: the conversion to \<open>Uint8\<close> truncates.
\<close>

theorem glow_alpha_not_exact:
  "pixels (create_glow_texture 40) (41, 40) = Some (255, 255, 200, 248)
   \<and> normalized_distance 40 41 40 = 1 / 40
   \<and> real_of_int (uint (248 :: 8 word)) \<noteq> (1 - normalized_distance 40 41 40) * 255"
  by (simp add: pixels_create_glow_texture glow_alpha_41_40
      normalized_distance_def center_distance_def)

text \<open>
  C4 (amended). Every pixel (x, y) of the glow texture is drawn in the colour
  (255, 255, 200) with the alpha that the conversion to \<open>Uint8\<close> truncates from the
  float value of (1 - d) * 255, an integer above (1 - d) * 255 - 1 - 1/8192 and at most
  (1 - d) * 255 + 1/8192, where d is the Euclidean distance from the centre divided
  by the radius, clamped to [0, 1]. Of two pixels the one nearer to the centre has the
  alpha that is not smaller, and a pixel at a distance of at least the radius has
  alpha 0. The computation is the program's, in floats; the radius is at most 2048,
  so that the squared distances are floats (the program's radius is 40).
\<close>

theorem glow_texture_alpha:
  assumes "0 \<le> x" and "x < radius * 2" and "0 \<le> y" and "y < radius * 2"
    and "radius \<le> 2048"
  shows "pixels (create_glow_texture radius) (x, y)
           = Some (255, 255, 200, glow_alpha radius x y)
    \<and> (1 - normalized_distance radius x y) * 255 - 1 - 1 / 8192
          < real_of_int (uint (glow_alpha radius x y))
    \<and> real_of_int (uint (glow_alpha radius x y))
          \<le> (1 - normalized_distance radius x y) * 255 + 1 / 8192
    \<and> (0 \<le> x' \<and> x' < radius * 2 \<and> 0 \<le> y' \<and> y' < radius * 2
         \<and> center_distance radius x y \<le> center_distance radius x' y'
          \<longrightarrow> glow_alpha radius x' y' \<le> glow_alpha radius x y)
    \<and> (1 \<le> center_distance radius x y \<longrightarrow> glow_alpha radius x y = 0)"
proof -
  have "pixels (create_glow_texture radius) (x, y) = Some (255, 255, 200, glow_alpha radius x y)"
    using assms by (simp add: pixels_create_glow_texture)
  moreover have "glow_alpha radius x' y' \<le> glow_alpha radius x y"
    if "0 \<le> x'" "x' < radius * 2" "0 \<le> y'" "y' < radius * 2"
      "center_distance radius x y \<le> center_distance radius x' y'"
    using assms that by (intro glow_alpha_mono)
  moreover have "glow_alpha radius x y = 0" if "1 \<le> center_distance radius x y"
    using assms that by (intro glow_alpha_zero)
  ultimately show ?thesis
    using glow_alpha_near [OF assms] by blast
qed

theorem glow_texture_alpha_witness:
  "pixels (create_glow_texture 40) (64, 40) = Some (255, 255, 200, 101)
   \<and> (1 - normalized_distance 40 64 40) * 255 = 102
   \<and> glow_alpha 40 0 40 \<le> glow_alpha 40 64 40
   \<and> glow_alpha 40 0 40 = 0"
proof -
  have s: "sqrt 1600 = 40" "sqrt 576 = 24"
    using real_sqrt_abs [of 40] real_sqrt_abs [of 24] by simp_all
  have d: "center_distance 40 64 40 = 3 / 5" "center_distance 40 0 40 = 1"
    by (simp_all add: center_distance_def s)
  have n: "normalized_distance 40 64 40 = 3 / 5"
    by (simp add: normalized_distance_def d)
  show ?thesis
    using glow_texture_alpha [of 64 40 40 0 40] glow_texture_alpha [of 0 40 40 0 0]
    by (simp add: d n glow_alpha_64_40)
qed

text \<open>
  C5 (as stated, false). After Init with a random source that always returns 0.5,
  every point is at (320, 240) with speed 495. A frame 16 ticks later advances point 7
  without triggering the wrap check, to (327.9200134..., 247.9199981...): the increase
  of x is not elapsed * speed, and it is not the increase of y. Each sum is rounded to
  a float.
\<close>

theorem iterate_advance_not_exact:
  "points (snd (SDL_AppInit (const_random (1 / 2) 1) True True 0 (app_start 0))) 7
     = \<lparr>pt_x = 320, pt_y = 240\<rparr>
   \<and> point_speeds (snd (SDL_AppInit (const_random (1 / 2) 1) True True 0 (app_start 0))) 7 = 495
   \<and> elapsed_seconds 16 (snd (SDL_AppInit (const_random (1 / 2) 1) True True 0 (app_start 0)))
     = 8589935 / 536870912
   \<and> points (fst (snd (SDL_AppIterate (const_random (1 / 2) 1) 16
         (snd (SDL_AppInit (const_random (1 / 2) 1) True True 0 (app_start 0)))))) 7
     = \<lparr>pt_x = 10745283 / 32768, pt_y = 16247685 / 65536\<rparr>
   \<and> (10745283 / 32768 - 320 :: real) \<noteq> 8589935 / 536870912 * 495
   \<and> (10745283 / 32768 - 320 :: real) \<noteq> 16247685 / 65536 - 240"
proof -
  let ?R = "const_random (1 / 2) 1"
  let ?s = "snd (SDL_AppInit ?R True True 0 (app_start 0))"
  have i: "7 < NUM_POINTS"
    by (simp add: NUM_POINTS_def)
  have p: "points ?s 7 = \<lparr>pt_x = 320, pt_y = 240\<rparr>" and v: "point_speeds ?s 7 = 495"
    and l: "last_time ?s = 0"
    using SDL_AppInit_const [OF i, of "1 / 2" 1 0 "app_start 0"] by simp_all
  have e: "elapsed_seconds 16 ?s = 8589935 / 536870912"
    using to_float_eval [of "2 / 125" 29]
    by (simp add: elapsed_seconds_def l f_div_def f_of_Uint64_def round_even_def)
  have d: "point_distance 16 ?s 7 = 16609445 / 2097152"
    using to_float_eval [of "8589935 / 536870912 * 495" 21]
    by (simp add: point_distance_def e v f_mul_def round_even_def)
  have x: "f_add 320 (16609445 / 2097152) = 10745283 / 32768"
    using to_float_eval [of "320 + 16609445 / 2097152" 15]
    by (simp add: f_add_def round_even_def)
  have y: "f_add 240 (16609445 / 2097152) = 16247685 / 65536"
    using to_float_eval [of "240 + 16609445 / 2097152" 16]
    by (simp add: f_add_def round_even_def)
  have "points (fst (snd (SDL_AppIterate ?R 16 ?s))) 7
        = \<lparr>pt_x = 10745283 / 32768, pt_y = 16247685 / 65536\<rparr>"
    using iterate_point_untriggered [OF i, of ?s 16 ?R]
    by (simp add: p d x y out_of_window_def window_consts)
  then show ?thesis
    using p v e by simp
qed

text \<open>
  C5 (amended). A point whose advance does not trigger the wrap check leaves the
  Iterate callback with its speed unchanged and with each coordinate replaced by the
  float sum of the coordinate and the distance, where the distance is the float product
  elapsed * speed and is the same for both axes. Each of these roundings is within
  a relative error of \<open>2\<^sup>-\<^sup>2\<^sup>4\<close> (and \<open>2\<^sup>-\<^sup>1\<^sup>5\<^sup>0\<close>), so a coordinate increases by
  elapsed * speed up to rounding. The pass of the loop for index i starts in a state t
  that still holds the point and the speed of the start of the frame; there the point
  has just been advanced in this way when the bounds are checked, and with a speed of
  100 and 1000 ticks since the last frame the elapsed time is 1.0 and the distance is
  exactly 100.
\<close>

theorem iterate_advances_point:
  assumes "i < NUM_POINTS"
  shows "(\<not> out_of_window
            \<lparr>pt_x = f_add (pt_x (points s i)) (point_distance now s i),
             pt_y = f_add (pt_y (points s i)) (point_distance now s i)\<rparr>
          \<longrightarrow> points (fst (snd (SDL_AppIterate R now s))) i
                = \<lparr>pt_x = f_add (pt_x (points s i)) (point_distance now s i),
                   pt_y = f_add (pt_y (points s i)) (point_distance now s i)\<rparr>
              \<and> point_speeds (fst (snd (SDL_AppIterate R now s))) i = point_speeds s i)
    \<and> (\<exists>t. points t i = points s i \<and> point_speeds t i = point_speeds s i
           \<and> points (fst (snd (SDL_AppIterate R now s))) i
              = points (wrap_point R i (advance_point (elapsed_seconds now s) i t)) i
           \<and> points (advance_point (elapsed_seconds now s) i t) i
              = \<lparr>pt_x = f_add (pt_x (points s i)) (point_distance now s i),
                 pt_y = f_add (pt_y (points s i)) (point_distance now s i)\<rparr>)
    \<and> \<bar>point_distance now s i - elapsed_seconds now s * point_speeds s i\<bar>
          \<le> \<bar>elapsed_seconds now s * point_speeds s i\<bar> / 2 ^ 24 + 1 / 2 ^ 150
    \<and> \<bar>f_add (pt_x (points s i)) (point_distance now s i)
           - (pt_x (points s i) + point_distance now s i)\<bar>
          \<le> \<bar>pt_x (points s i) + point_distance now s i\<bar> / 2 ^ 24 + 1 / 2 ^ 150
    \<and> \<bar>f_add (pt_y (points s i)) (point_distance now s i)
           - (pt_y (points s i) + point_distance now s i)\<bar>
          \<le> \<bar>pt_y (points s i) + point_distance now s i\<bar> / 2 ^ 24 + 1 / 2 ^ 150
    \<and> (now - last_time s = 1000 \<and> point_speeds s i = 100
          \<longrightarrow> elapsed_seconds now s = 1 \<and> point_distance now s i = 100)"
proof -
  have "elapsed_seconds now s = 1 \<and> point_distance now s i = 100"
    if "now - last_time s = 1000" and "point_speeds s i = 100"
    using that by (simp add: point_distance_def elapsed_seconds_1000 f_mul_def)
  moreover have "\<bar>point_distance now s i - elapsed_seconds now s * point_speeds s i\<bar>
      \<le> \<bar>elapsed_seconds now s * point_speeds s i\<bar> / 2 ^ 24 + 1 / 2 ^ 150"
    unfolding point_distance_def f_mul_def by (rule to_float_error)
  moreover have "\<bar>f_add a b - (a + b)\<bar> \<le> \<bar>a + b\<bar> / 2 ^ 24 + 1 / 2 ^ 150" for a b
    unfolding f_add_def by (rule to_float_error)
  ultimately show ?thesis
    using iterate_point_untriggered [OF assms, of s now R] iterate_point_advanced [OF assms, of s R now]
    by blast
qed

theorem iterate_advances_point_witness:
  "points (fst (snd (SDL_AppIterate (const_random (1 / 2) 1) 16
      (snd (SDL_AppInit (const_random (1 / 2) 1) True True 0 (app_start 0)))))) 7
     = \<lparr>pt_x = f_add 320 (16609445 / 2097152), pt_y = f_add 240 (16609445 / 2097152)\<rparr>
   \<and> point_distance 1000 ((app_start (0 :: nat))\<lparr>point_speeds := (\<lambda>i. 100)\<rparr>) 7 = 100"
proof -
  let ?R = "const_random (1 / 2) 1"
  let ?s = "snd (SDL_AppInit ?R True True 0 (app_start 0))"
  let ?t = "(app_start (0 :: nat))\<lparr>point_speeds := (\<lambda>i. 100)\<rparr>"
  have i: "7 < NUM_POINTS"
    by (simp add: NUM_POINTS_def)
  have p: "points ?s 7 = \<lparr>pt_x = 320, pt_y = 240\<rparr>" and v: "point_speeds ?s 7 = 495"
    and l: "last_time ?s = 0"
    using SDL_AppInit_const [OF i, of "1 / 2" 1 0 "app_start 0"] by simp_all
  have e: "elapsed_seconds 16 ?s = 8589935 / 536870912"
    using to_float_eval [of "2 / 125" 29]
    by (simp add: elapsed_seconds_def l f_div_def f_of_Uint64_def round_even_def)
  have d: "point_distance 16 ?s 7 = 16609445 / 2097152"
    using to_float_eval [of "8589935 / 536870912 * 495" 21]
    by (simp add: point_distance_def e v f_mul_def round_even_def)
  have x: "f_add 320 (16609445 / 2097152) = 10745283 / 32768"
    using to_float_eval [of "320 + 16609445 / 2097152" 15]
    by (simp add: f_add_def round_even_def)
  have y: "f_add 240 (16609445 / 2097152) = 16247685 / 65536"
    using to_float_eval [of "240 + 16609445 / 2097152" 16]
    by (simp add: f_add_def round_even_def)
  have w: "\<not> out_of_window \<lparr>pt_x = f_add 320 (16609445 / 2097152),
                              pt_y = f_add 240 (16609445 / 2097152)\<rparr>"
    by (simp add: x y out_of_window_def window_consts)
  have t: "1000 - last_time ?t = 1000 \<and> point_speeds ?t 7 = 100"
    by (simp add: app_start_def)
  show ?thesis
    using iterate_advances_point [OF i, of ?s 16 ?R] iterate_advances_point [OF i, of ?t 1000 ?R]
      w t
    by (simp add: p d)
qed

text \<open>
  C6. Every speed the program assigns is between 30 and 960 pixels per second, whatever
  floats in [0, 1) the random source returns: the speed of a point seeded by Init, the
  speed of a point respawned by Iterate, and so the speed of every point in every
  state the demo reaches.
\<close>

theorem assigned_speeds_in_range:
  assumes "randf_unit R"
  shows "30 \<le> point_speeds (seed_point R i s) i \<and> point_speeds (seed_point R i s) i \<le> 960
    \<and> (out_of_window (points s i)
         \<longrightarrow> 30 \<le> point_speeds (wrap_point R i s) i \<and> point_speeds (wrap_point R i s) i \<le> 960)
    \<and> (reachable R s \<and> i < NUM_POINTS
         \<longrightarrow> 30 \<le> point_speeds s i \<and> point_speeds s i \<le> 960)"
proof -
  have range: "speed_in_range v = (30 \<le> v \<and> v \<le> 960)" for v
    by (simp add: speed_in_range_def window_consts)
  have "speed_in_range (point_speeds s i)" if "reachable R s" and "i < NUM_POINTS"
    using reachable_ok [OF assms that(1)] that(2)
    by (simp add: stars_ok_def all_speeds_in_range_def)
  then show ?thesis
    using seed_point_at(2) [OF assms, of i s] wrap_point_respawn(2) [OF assms, of s i]
    unfolding range by blast
qed

theorem assigned_speeds_in_range_witness:
  "randf_unit (const_random (3 / 4) 0)
   \<and> 30 \<le> point_speeds (seed_point (const_random (3 / 4) 0) 2 (app_start 0)) 2
   \<and> point_speeds (seed_point (const_random (3 / 4) 0) 2 (app_start 0)) 2 \<le> 960
   \<and> 30 \<le> point_speeds (snd (SDL_AppInit (const_random (3 / 4) 0) True True 0 (app_start 0))) 2
   \<and> point_speeds (snd (SDL_AppInit (const_random (3 / 4) 0) True True 0 (app_start 0))) 2 \<le> 960"
proof -
  let ?R = "const_random (3 / 4) 0"
  have R: "randf_unit ?R"
    by (simp add: randf_unit_def const_random_def)
  have r: "reachable ?R (snd (SDL_AppInit ?R True True 0 (app_start 0)))"
    by (rule reachable_init)
  show ?thesis
    using assigned_speeds_in_range [OF R, of 2 "app_start 0"]
      assigned_speeds_in_range [OF R, of 2 "snd (SDL_AppInit ?R True True 0 (app_start 0))"]
      R r
    by (simp add: NUM_POINTS_def)
qed

text \<open>
  C9. If the Iterate callback runs at the tick of the last frame (elapsed = 0) and every
  point is inside the window, the callback leaves the array of points and the array of
  speeds as they were. The coordinates of the points are floats, as they are in the
  program.
\<close>

theorem iterate_same_tick_identity:
  assumes "now = last_time s" and "all_in_window s" and "float_points s"
  shows "points (fst (snd (SDL_AppIterate R now s))) = points s
    \<and> point_speeds (fst (snd (SDL_AppIterate R now s))) = point_speeds s"
proof -
  have "elapsed_seconds now s = 0"
    unfolding assms(1) by (rule elapsed_seconds_same_tick)
  then have "move_stars R (elapsed_seconds now s) 0 s = s"
    using move_stars_idle [OF assms(2,3)] by simp
  then show ?thesis
    by (simp add: SDL_AppIterate_state)
qed

theorem iterate_same_tick_identity_witness:
  "last_time (snd (SDL_AppInit (const_random (1 / 2) 1) True True 5000 (app_start 0))) = 5000
   \<and> points (snd (SDL_AppInit (const_random (1 / 2) 1) True True 5000 (app_start 0))) 7
       = \<lparr>pt_x = 320, pt_y = 240\<rparr>
   \<and> point_speeds (snd (SDL_AppInit (const_random (1 / 2) 1) True True 5000 (app_start 0))) 7
       = 495
   \<and> all_in_window (snd (SDL_AppInit (const_random (1 / 2) 1) True True 5000 (app_start 0)))
   \<and> float_points (snd (SDL_AppInit (const_random (1 / 2) 1) True True 5000 (app_start 0)))
   \<and> points (fst (snd (SDL_AppIterate (const_random (1 / 2) 1) 5000
         (snd (SDL_AppInit (const_random (1 / 2) 1) True True 5000 (app_start 0))))))
       = points (snd (SDL_AppInit (const_random (1 / 2) 1) True True 5000 (app_start 0)))
   \<and> point_speeds (fst (snd (SDL_AppIterate (const_random (1 / 2) 1) 5000
         (snd (SDL_AppInit (const_random (1 / 2) 1) True True 5000 (app_start 0))))))
       = point_speeds (snd (SDL_AppInit (const_random (1 / 2) 1) True True 5000 (app_start 0)))"
proof -
  let ?R = "const_random (1 / 2) 1"
  let ?s = "snd (SDL_AppInit ?R True True 5000 (app_start 0))"
  have R: "randf_unit ?R"
    by (simp add: randf_unit_def const_random_def)
  have i: "7 < NUM_POINTS"
    by (simp add: NUM_POINTS_def)
  have c: "points ?s 7 = \<lparr>pt_x = 320, pt_y = 240\<rparr>" "point_speeds ?s 7 = 495"
    using SDL_AppInit_const [OF i, of "1 / 2" 1 5000 "app_start 0"] by simp_all
  have l: "5000 = last_time ?s"
    using SDL_AppInit_const(3) [OF i, of "1 / 2" 1 5000 "app_start 0"] by simp
  have w: "all_in_window ?s"
    using SDL_AppInit_ok [OF R, of 5000 "app_start 0"] by (simp add: stars_ok_def)
  have f: "float_points ?s"
    unfolding float_points_def
    using SDL_AppInit_const(1) [of _ "1 / 2" 1 5000 "app_start 0"]
    by (simp add: is_float_def)
  show ?thesis
    using iterate_same_tick_identity [OF l w f, of ?R] c l w f by simp
qed

end
